theory Spec2Isabelle
  imports Complex_Main "HOL-Library.Word"
begin

section \<open>JavaScript strings\<close>

text \<open>
  A JavaScript string is a sequence of 16-bit UTF-16 code units.  Program constants that
  are plain ASCII are written with \<open>js\<close>; the few non-ASCII characters of the source
  (the ellipsis, the check mark, the em dash) are written as their code units.
\<close>

type_synonym jschar = "16 word"
type_synonym jsstring = "jschar list"

definition js :: "string \<Rightarrow> jsstring" where
  "js s = map (\<lambda>c. word_of_nat (of_char c)) s"

text \<open>\<open>String.prototype.endsWith(t)\<close>.\<close>

definition endsWith :: "jsstring \<Rightarrow> jsstring \<Rightarrow> bool" where
  "endsWith s t = (length t \<le> length s \<and> drop (length s - length t) s = t)"

text \<open>\<open>String(n)\<close> for a non-negative integer below \<open>10^21\<close>: its decimal digits.\<close>

definition digit :: "nat \<Rightarrow> jschar" where
  "digit d = word_of_nat (48 + d)"

fun decimal :: "nat \<Rightarrow> jsstring" where
  "decimal n = (if n < 10 then [digit n] else decimal (n div 10) @ [digit (n mod 10)])"

declare decimal.simps [simp del]

text \<open>
  \<open>String.prototype.trim()\<close> removes the WhiteSpace and LineTerminator code points of
  ECMAScript from both ends: TAB, LF, VT, FF, CR, SP, NBSP, U+1680, U+2000 to U+200A, U+2028,
  U+2029, U+202F, U+205F, U+3000 and U+FEFF. All of them are single code units.
\<close>

definition isWhiteSpace :: "jschar \<Rightarrow> bool" where
  "isWhiteSpace c =
     (c \<in> {0x0009, 0x000A, 0x000B, 0x000C, 0x000D, 0x0020, 0x00A0, 0x1680, 0x2028, 0x2029,
            0x202F, 0x205F, 0x3000, 0xFEFF} \<or> (0x2000 \<le> c \<and> c \<le> 0x200A))"

definition trim :: "jsstring \<Rightarrow> jsstring" where
  "trim s = rev (dropWhile isWhiteSpace (rev (dropWhile isWhiteSpace s)))"

text \<open>
  \<open>s.replace(pat, rep)\<close> with a string pattern replaces the first occurrence of
  \<open>pat\<close> only.  The replacement strings of this program (\<open>""\<close> and \<open>"_400x400"\<close>)
  hold no \<open>$\<close>, so they are inserted as they are.
\<close>

fun replace :: "jsstring \<Rightarrow> jsstring \<Rightarrow> jsstring \<Rightarrow> jsstring" where
  "replace pat rep [] = (if pat = [] then rep else [])"
| "replace pat rep (c # cs) =
     (if take (length pat) (c # cs) = pat then rep @ drop (length pat) (c # cs)
      else c # replace pat rep cs)"

section \<open>The avatar relay: \<open>GET /api/img\<close> (src/unnamed/part_000)\<close>

text \<open>
  The handler reads the \<open>url\<close> search parameter of the request (\<open>None\<close> when the
  parameter is absent), parses it with the platform's \<open>URL\<close> class and fetches it.
  The platform's URL parser and the network are not code of the repository: the parser is
  the parameter \<open>hostname\<close> (\<open>None\<close> when \<open>new URL(url)\<close> throws, otherwise the
  \<open>hostname\<close> property), the network is the parameter \<open>fetch\<close>.  The handler returns
  its response together with the list of upstream requests it made.
\<close>

record request_init =
  ri_headers :: "(jsstring \<times> jsstring) list"
  ri_cache :: jsstring

record upstream_response =
  up_ok :: bool
  up_status :: nat
  up_content_type :: "jsstring option"
  up_arrayBuffer :: "8 word list option"

datatype fetch_result = Rejected | Resolved upstream_response

datatype response_body = Text jsstring | Bytes "8 word list"

record response =
  status :: nat
  body :: response_body
  headers :: "(jsstring \<times> jsstring) list"

definition text_response :: "jsstring \<Rightarrow> nat \<Rightarrow> response" where
  "text_response msg st = \<lparr>status = st, body = Text msg, headers = []\<rparr>"

definition allowedHosts :: "jsstring list" where
  "allowedHosts =
     [js ''pbs.twimg.com'', js ''abs.twimg.com'', js ''twimg.com'',
      js ''video.twimg.com'', js ''ton.twimg.com'']"

definition isAllowed :: "jsstring \<Rightarrow> bool" where
  "isAllowed host =
     (host \<in> set allowedHosts \<or>
      list_ex (\<lambda>h. host = h \<or> endsWith host (js ''.'' @ h)) allowedHosts)"

definition upstream_init :: request_init where
  "upstream_init =
     \<lparr>ri_headers =
        [(js ''user-agent'', js ''Mozilla/5.0 (compatible; RitualCardBot/1.0)''),
         (js ''accept'', js ''image/avif,image/webp,image/apng,image/*,*/*;q=0.8'')],
      ri_cache = js ''no-store''\<rparr>"

text \<open>
  The \<open>try\<close> block of the handler, after one upstream request: a rejected fetch and a
  rejected \<open>arrayBuffer()\<close> both land in the \<open>catch\<close> branch.
\<close>

definition relay_upstream :: "fetch_result \<Rightarrow> response" where
  "relay_upstream r =
     (case r of
        Rejected \<Rightarrow> text_response (js ''Proxy failed'') 500
      | Resolved up \<Rightarrow>
          if \<not> up_ok up
          then text_response (js ''Upstream error: '' @ decimal (up_status up)) 502
          else
            let contentType =
                  (case up_content_type up of
                     None \<Rightarrow> js ''image/jpeg''
                   | Some c \<Rightarrow> if c = [] then js ''image/jpeg'' else c)
            in (case up_arrayBuffer up of
                  None \<Rightarrow> text_response (js ''Proxy failed'') 500
                | Some bytes \<Rightarrow>
                    \<lparr>status = 200, body = Bytes bytes,
                     headers =
                       [(js ''content-type'', contentType),
                        (js ''cache-control'', js ''public, max-age=3600, s-maxage=3600''),
                        (js ''access-control-allow-origin'', js ''*'')]\<rparr>))"

definition GET ::
  "(jsstring \<Rightarrow> jsstring option) \<Rightarrow> (jsstring \<Rightarrow> request_init \<Rightarrow> fetch_result) \<Rightarrow>
   jsstring option \<Rightarrow> response \<times> (jsstring \<times> request_init) list"
where
  "GET hostname fetch param =
     (case param of
        None \<Rightarrow> (text_response (js ''Missing url param'') 400, [])
      | Some url \<Rightarrow>
          if url = [] then (text_response (js ''Missing url param'') 400, [])
          else
            (case hostname url of
               None \<Rightarrow> (text_response (js ''Invalid url'') 400, [])
             | Some host \<Rightarrow>
                 if \<not> isAllowed host
                 then (text_response (js ''Host not allowed'') 403, [])
                 else (relay_upstream (fetch url upstream_init), [(url, upstream_init)])))"

text \<open>
  A stand-in for the platform's parser on URLs of the shape \<open>https://host/path\<close>, used
  to run the handler on concrete requests: the host is what lies between the scheme and
  the next slash.
\<close>

definition sample_hostname :: "jsstring \<Rightarrow> jsstring option" where
  "sample_hostname url =
     (if take 8 url = js ''https://'' \<and> 8 < length url
      then Some (takeWhile (\<lambda>c. c \<noteq> 47) (drop 8 url))
      else None)"

definition sample_up :: upstream_response where
  "sample_up = \<lparr>up_ok = True, up_status = 200, up_content_type = Some (js ''image/png''),
                up_arrayBuffer = Some [137, 80, 78, 71]\<rparr>"

definition sample_fetch :: "jsstring \<Rightarrow> request_init \<Rightarrow> fetch_result" where
  "sample_fetch url init = Resolved sample_up"

section \<open>The card page (src/unnamed/part_001 and the two revisions in src/app/page.js)\<close>

text \<open>
  The repository holds three revisions of the page component.  src/app/page.js contains two
  of them one after the other: lines 1 to 783 (called v2 below: share sheet or popup on iOS,
  one rasterization attempt) and lines 783 to 1549 (v4 in its own header comment: in-page
  overlay on iOS).  src/unnamed/part_001 is v3 by its header comment (pre-opened tab on iOS).
  \<open>roleConfig\<close>, \<open>fmtNum\<close> and \<open>generateCard\<close> are the same text in all three;
  \<open>reset\<close> and \<open>download\<close> differ.  Definitions without a suffix follow part_001.
  part_001 is stored with its non-ASCII characters re-encoded; those characters are taken
  from the intact copy in src/app/page.js.
\<close>

subsection \<open>JavaScript values\<close>

text \<open>
  The values that \<open>JSON.parse\<close> can produce, and \<open>undefined\<close>.  A number is given by
  its exact value.  An object is the list of its own properties.
\<close>

datatype jsval =
    Undefined
  | Null
  | Bool bool
  | Num rat
  | Str jsstring
  | Arr "jsval list"
  | Obj "(jsstring \<times> jsval) list"

fun truthy :: "jsval \<Rightarrow> bool" where
  "truthy Undefined = False"
| "truthy Null = False"
| "truthy (Bool b) = b"
| "truthy (Num n) = (n \<noteq> 0)"
| "truthy (Str s) = (s \<noteq> [])"
| "truthy (Arr xs) = True"
| "truthy (Obj kvs) = True"

text \<open>\<open>a || b\<close>, \<open>a && b\<close> and \<open>a ?? b\<close> on values.\<close>

definition or_js :: "jsval \<Rightarrow> jsval \<Rightarrow> jsval" where
  "or_js a b = (if truthy a then a else b)"

definition and_js :: "jsval \<Rightarrow> jsval \<Rightarrow> jsval" where
  "and_js a b = (if truthy a then b else a)"

definition nullish :: "jsval \<Rightarrow> jsval \<Rightarrow> jsval" where
  "nullish a b = (if a = Null \<or> a = Undefined then b else a)"

text \<open>
  \<open>v.k\<close> for the property names this program reads (none of them is defined by a
  prototype): the own property of an object, \<open>undefined\<close> on every other value.  Reading a
  property of \<open>null\<close> or \<open>undefined\<close> throws; the program reads only from values it has
  found truthy, and \<open>data?.user\<close> is \<open>opt_chain\<close>.
\<close>

fun js_prop :: "jsval \<Rightarrow> jsstring \<Rightarrow> jsval" where
  "js_prop (Obj kvs) k = (case map_of kvs k of Some v \<Rightarrow> v | None \<Rightarrow> Undefined)"
| "js_prop v k = Undefined"

definition opt_chain :: "jsval \<Rightarrow> jsstring \<Rightarrow> jsval" where
  "opt_chain v k = (if v = Null \<or> v = Undefined then Undefined else js_prop v k)"

subsection \<open>Role configuration\<close>

record role_cfg =
  stars :: nat
  rarity :: jsstring
  emoji :: jsstring
  color :: jsstring
  colorDark :: jsstring

definition role_table :: "(jsstring \<times> role_cfg) list" where
  "role_table =
     [(js ''Initiate'',
         \<lparr>stars = 1, rarity = js ''INITIATE'', emoji = [0xD83C, 0xDF31],
          color = js ''#2ECC71'', colorDark = js ''#1A7A3A''\<rparr>),
      (js ''Ritty Bitty'',
         \<lparr>stars = 2, rarity = js ''COMMON'', emoji = [0xD83D, 0xDC31],
          color = js ''#88BBFF'', colorDark = js ''#4488CC''\<rparr>),
      (js ''Ritty'',
         \<lparr>stars = 3, rarity = js ''RARE'', emoji = [0xD83D, 0xDD6F, 0xFE0F],
          color = js ''#AA66FF'', colorDark = js ''#553399''\<rparr>),
      (js ''Mage'',
         \<lparr>stars = 3, rarity = js ''MAGE'', emoji = [0xD83D, 0xDD2E],
          color = js ''#CC44FF'', colorDark = js ''#6622AA''\<rparr>),
      (js ''Ritualist'',
         \<lparr>stars = 4, rarity = js ''EPIC'', emoji = [0xD83D, 0xDD25],
          color = js ''#FF8833'', colorDark = js ''#CC4400''\<rparr>),
      (js ''Radiant Ritualist'',
         \<lparr>stars = 5, rarity = js ''LEGENDARY'', emoji = [0x2726],
          color = js ''#FFD700'', colorDark = js ''#996600''\<rparr>)]"

definition roleConfig :: "jsstring \<Rightarrow> role_cfg option" where
  "roleConfig role = map_of role_table role"

subsection \<open>Component state\<close>

record profile =
  username :: jsstring
  displayName :: jsval
  avatarUrl :: jsval
  bio :: jsval
  followers :: jsval
  following :: jsval
  tweets :: jsval

text \<open>
  The \<open>useState\<close> cells of the component.  v2 has no \<open>exportStatus\<close> and only v4 has
  \<open>iosSaveDataURL\<close>; a revision never reads or writes a cell it does not have.
\<close>

record ui_state =
  handle :: jsstring
  selectedRole :: jsstring
  loading :: bool
  exporting :: bool
  exportStatus :: jsstring
  error :: jsstring
  profile :: profile
  showCard :: bool
  iosSaveDataURL :: "jsstring option"

definition default_profile :: profile where
  "default_profile =
     \<lparr>username = [], displayName = Str (js ''USERNAME''), avatarUrl = Str [],
      bio = Str (js ''Stay Ritualized''), followers = Null, following = Null, tweets = Null\<rparr>"

definition initial_state :: ui_state where
  "initial_state =
     \<lparr>handle = [], selectedRole = [], loading = False, exporting = False, exportStatus = [],
      error = [], profile = default_profile, showCard = False, iosSaveDataURL = None\<rparr>"

text \<open>
  \<open>cfg\<close>: \<open>selectedRole ? roleConfig[selectedRole] : null\<close>.  The role buttons set
  \<open>selectedRole\<close> to a key of the table and \<open>reset\<close> sets it to the empty string; for
  any other string the lookup is taken to be \<open>undefined\<close>.
\<close>

definition cfg :: "ui_state \<Rightarrow> role_cfg option" where
  "cfg s = (if selectedRole s = [] then None else roleConfig (selectedRole s))"

text \<open>
  What the card section binds, for the parts of the card that the properties below speak
  of.  The section is rendered under \<open>showCard && cfg\<close>; \<open>stageRef.current\<close> is its export
  stage, so it is set exactly when the section is rendered.
\<close>

record card_view =
  cv_badge :: jsstring
  cv_name :: jsval
  cv_sideHandle :: jsstring
  cv_stars :: nat
  cv_bio :: jsval

definition render_card :: "ui_state \<Rightarrow> card_view option" where
  "render_card s =
     (if showCard s then
        (case cfg s of
           None \<Rightarrow> None
         | Some c \<Rightarrow>
             Some \<lparr>cv_badge = rarity c, cv_name = displayName (profile s),
                   cv_sideHandle = js ''@'' @ username (profile s), cv_stars = stars c,
                   cv_bio = or_js (bio (profile s)) (Str (js ''Stay Ritualized''))\<rparr>)
      else None)"

definition stage_mounted :: "ui_state \<Rightarrow> bool" where
  "stage_mounted s = (render_card s \<noteq> None)"

subsection \<open>generateCard\<close>

text \<open>
  The outcome of \<open>fetch\<close> on the profile API: the promise rejects, or it resolves to a
  response with its \<open>ok\<close> flag and the outcome of \<open>res.json()\<close> (\<open>None\<close> when the body
  does not parse).  \<open>encodeURIComponent\<close> is the platform's; it is \<open>None\<close> where it throws
  (a lone surrogate).
\<close>

datatype profile_fetch = FetchRejects | FetchResolves bool "jsval option"

record page_env =
  fetchProfile :: "jsstring \<Rightarrow> profile_fetch"
  encodeURIComponent :: "jsstring \<Rightarrow> jsstring option"

text \<open>The assignments after the avatar lines, which cannot throw.\<close>

definition read_texts :: "jsval \<Rightarrow> profile \<Rightarrow> profile" where
  "read_texts u p =
     p\<lparr>bio := or_js (or_js (js_prop u (js ''description'')) (js_prop u (js ''bio''))) (bio p),
       followers :=
         nullish (nullish (js_prop u (js ''followers_count'')) (js_prop u (js ''followers''))) Null,
       following :=
         nullish (nullish (js_prop u (js ''following_count'')) (js_prop u (js ''friends_count''))) Null,
       tweets :=
         nullish (nullish (js_prop u (js ''statuses_count'')) (js_prop u (js ''tweet_count''))) Null\<rparr>"

text \<open>
  The right-hand side of the first assignment to \<open>avatarUrl\<close>:
  \<open>u.avatar_url || u.profile_image_url_https || u.profile_image_url || (u.avatar && u.avatar.url) || ""\<close>.
\<close>

definition avatar_source :: "jsval \<Rightarrow> jsval" where
  "avatar_source u =
     or_js (or_js (or_js (or_js (js_prop u (js ''avatar_url''))
                                (js_prop u (js ''profile_image_url_https'')))
                         (js_prop u (js ''profile_image_url'')))
                  (and_js (js_prop u (js ''avatar''))
                          (js_prop (js_prop u (js ''avatar'')) (js ''url''))))
           (Str [])"

text \<open>
  The body of \<open>if (data?.user)\<close>, run on the locals \<open>p\<close>.  The result is the locals at the
  point where the \<open>try\<close> block is left: at its end, or at a throw (\<open>avatarUrl.replace\<close> on
  a truthy value that is not a string, or \<open>encodeURIComponent\<close>), since \<open>catch {}\<close> keeps
  what was assigned before.
\<close>

definition read_user :: "page_env \<Rightarrow> jsstring \<Rightarrow> jsval \<Rightarrow> profile \<Rightarrow> profile" where
  "read_user env name u p =
     (let p1 = p\<lparr>displayName := or_js (js_prop u (js ''name'')) (Str name)\<rparr>;
          a0 = avatar_source u;
          p2 = p1\<lparr>avatarUrl := a0\<rparr>
      in if \<not> truthy a0 then read_texts u p2
         else
           (case a0 of
              Str a \<Rightarrow>
                (let a1 = replace (js ''_normal'') (js ''_400x400'') a;
                     p3 = p2\<lparr>avatarUrl := Str a1\<rparr>
                 in if a1 = [] then read_texts u p3
                    else
                      (case encodeURIComponent env a1 of
                         None \<Rightarrow> p3
                       | Some e \<Rightarrow> read_texts u (p3\<lparr>avatarUrl := Str (js ''/api/img?url='' @ e)\<rparr>)))
            | _ \<Rightarrow> p2))"

text \<open>The \<open>try\<close> block with its empty \<open>catch\<close>.\<close>

definition resolve_profile :: "page_env \<Rightarrow> jsstring \<Rightarrow> profile_fetch \<Rightarrow> profile" where
  "resolve_profile env name r =
     (let p = \<lparr>username = name, displayName = Str name, avatarUrl = Str [],
               bio = Str (js ''Stay Ritualized''), followers = Null, following = Null,
               tweets = Null\<rparr>
      in case r of
           FetchRejects \<Rightarrow> p
         | FetchResolves ok parsed \<Rightarrow>
             if \<not> ok then p
             else
               (case parsed of
                  None \<Rightarrow> p
                | Some data \<Rightarrow>
                    if truthy (opt_chain data (js ''user''))
                    then read_user env name (js_prop data (js ''user'')) p
                    else p))"

text \<open>
  \<open>generateCard\<close>, from the state in which it is invoked to the state after its last
  setter, together with the URLs it fetched.
\<close>

definition generateCard :: "page_env \<Rightarrow> ui_state \<Rightarrow> ui_state \<times> jsstring list" where
  "generateCard env s =
     (let name = trim (replace (js ''@'') [] (handle s))
      in if name = [] then (s\<lparr>error := js ''Please enter your X/Twitter username''\<rparr>, [])
         else if selectedRole s = [] then (s\<lparr>error := js ''Please select your role''\<rparr>, [])
         else
           (let url = js ''https://api.fxtwitter.com/'' @ name
            in (s\<lparr>error := [], loading := False,
                  profile := resolve_profile env name (fetchProfile env url),
                  showCard := True\<rparr>,
                [url])))"

subsection \<open>The handle in the words of the specification\<close>

text \<open>
  The specification's normal form of a typed handle, to be compared with what
  \<open>generateCard\<close> computes: the input with the whitespace around it removed, without its
  leading \<open>@\<close> if it has one, and trimmed again (whitespace may follow the \<open>@\<close>).
\<close>

definition strip_leading_at :: "jsstring \<Rightarrow> jsstring" where
  "strip_leading_at s = (case s of [] \<Rightarrow> [] | c # cs \<Rightarrow> if c = 0x40 then cs else s)"

definition spec_handle :: "jsstring \<Rightarrow> jsstring" where
  "spec_handle h = trim (strip_leading_at (trim h))"

subsection \<open>reset\<close>

definition reset :: "ui_state \<Rightarrow> ui_state" where
  "reset s =
     s\<lparr>showCard := False, handle := [], selectedRole := [], error := [], exportStatus := [],
       profile := default_profile\<rparr>"

definition reset_v2 :: "ui_state \<Rightarrow> ui_state" where
  "reset_v2 s =
     s\<lparr>showCard := False, handle := [], selectedRole := [], error := [],
       profile := default_profile\<rparr>"

definition reset_v4 :: "ui_state \<Rightarrow> ui_state" where
  "reset_v4 s =
     s\<lparr>showCard := False, handle := [], selectedRole := [], error := [], exportStatus := [],
       iosSaveDataURL := None, profile := default_profile\<rparr>"

text \<open>Two environments to run \<open>generateCard\<close> in: the API is down, or it answers 404.\<close>

definition offline_env :: page_env where
  "offline_env = \<lparr>fetchProfile = (\<lambda>url. FetchRejects), encodeURIComponent = (\<lambda>s. None)\<rparr>"


definition example_form :: ui_state where
  "example_form = initial_state\<lparr>handle := js ''@Example '', selectedRole := js ''Mage''\<rparr>"

text \<open>A form whose handle has whitespace around it and an \<open>@\<close> inside.\<close>

definition inner_at_form :: ui_state where
  "inner_at_form = initial_state\<lparr>handle := js '' bob@x '', selectedRole := js ''Mage''\<rparr>"



subsection \<open>Rasterization\<close>

text \<open>
  \<open>htmlToImage.toBlob\<close> is a library call: it throws, or returns \<open>null\<close>, or returns a
  blob.  The model takes it as a parameter that is given the number of earlier calls in the
  same export and the options, so that a retry may fare differently from the first attempt.
\<close>

type_synonym blob = "8 word list"

datatype raster_result = RasterThrows | RasterReturns "blob option"

record toBlob_options =
  pixelRatio :: nat
  cacheBust :: bool
  backgroundColor :: jsstring
  skipFonts :: bool
  fetchRequestInit :: "(jsstring \<times> jsstring) list option"

datatype exn = Thrown | Error jsstring

definition high_options :: "jsstring \<Rightarrow> toBlob_options" where
  "high_options bgColor =
     \<lparr>pixelRatio = 3, cacheBust = True, backgroundColor = bgColor, skipFonts = True,
      fetchRequestInit = Some [(js ''mode'', js ''cors''), (js ''cache'', js ''no-store'')]\<rparr>"

definition low_options :: "jsstring \<Rightarrow> toBlob_options" where
  "low_options bgColor =
     \<lparr>pixelRatio = 2, cacheBust = True, backgroundColor = bgColor, skipFonts = True,
      fetchRequestInit = None\<rparr>"

text \<open>
  \<open>renderCardBlob\<close> (v3 and v4): the blob or the exception it ends with, and the
  \<open>toBlob\<close> calls it made, in order.
\<close>

definition renderCardBlob ::
  "(nat \<Rightarrow> toBlob_options \<Rightarrow> raster_result) \<Rightarrow> jsstring \<Rightarrow> (exn + blob) \<times> toBlob_options list"
where
  "renderCardBlob toBlob bgColor =
     (case toBlob 0 (high_options bgColor) of
        RasterReturns (Some b) \<Rightarrow> (Inr b, [high_options bgColor])
      | _ \<Rightarrow>
          (case toBlob 1 (low_options bgColor) of
             RasterThrows \<Rightarrow> (Inl Thrown, [high_options bgColor, low_options bgColor])
           | RasterReturns None \<Rightarrow>
               (Inl (Error (js ''Image export returned null'')),
                [high_options bgColor, low_options bgColor])
           | RasterReturns (Some b) \<Rightarrow> (Inr b, [high_options bgColor, low_options bgColor])))"

definition LIGHT_bg :: jsstring where
  "LIGHT_bg = js ''#F7F5FF''"

text \<open>The single \<open>toBlob\<close> call of v2's \<open>download\<close>.\<close>

definition v2_options :: toBlob_options where
  "v2_options =
     \<lparr>pixelRatio = 3, cacheBust = True, backgroundColor = LIGHT_bg, skipFonts = True,
      fetchRequestInit = None\<rparr>"

subsection \<open>The browser around the component\<close>

text \<open>
  What the export touches outside the component state: the tabs it opened, the object URLs
  that are alive, the anchors it put into the document, the downloads it triggered, and the
  callbacks it left with \<open>requestAnimationFrame\<close> and \<open>setTimeout\<close>.  \<open>pending\<close> holds,
  for every \<open>download\<close> call that has passed its first line and not yet reached its
  \<open>finally\<close>, the local variables it captured; \<open>rasterized\<close> lists the \<open>toBlob\<close> calls
  made so far.
\<close>

datatype tab_content =
    Blank
  | LoadingPage
  | ImagePage jsstring jsstring
  | ErrorPage
  | ShowsDataURL jsstring
  | ShowsObjectURL nat

record tab =
  is_closed :: bool
  content :: tab_content

datatype task = RevokeObjectURL nat | ClearExportStatus | RemoveAnchor nat

record closure =
  c_ios :: bool
  c_filename :: jsstring
  c_tab :: "nat option"

record world =
  ui :: ui_state
  tabs :: "tab list"
  created :: nat
  live_urls :: "nat list"
  anchors :: "nat list"
  downloads :: "(nat \<times> jsstring) list"
  frames :: "task list"
  timers :: "(nat \<times> task) list"
  opened_directly :: "jsstring list"
  shared :: "jsstring list"
  alerts :: "jsstring list"
  rasterized :: "toBlob_options list"
  pending :: "closure list"

definition world0 :: world where
  "world0 =
     \<lparr>ui = initial_state, tabs = [], created = 0, live_urls = [], anchors = [], downloads = [],
      frames = [], timers = [], opened_directly = [], shared = [], alerts = [],
      rasterized = [], pending = []\<rparr>"

text \<open>
  What one export meets: the platform (\<open>getUA().ios\<close>, the outcome of \<open>window.open\<close>,
  whether the writes into the tab throw, whether the user has closed the tab meanwhile),
  the rasterizer, the \<open>FileReader\<close>, and for v2 the share sheet.
\<close>

datatype open_result = OpenThrows | OpenNull | OpenTab

record export_env =
  ua_ios :: bool
  window_open :: open_result
  write_loading_ok :: bool
  tab_closed_meanwhile :: bool
  toBlob :: "nat \<Rightarrow> toBlob_options \<Rightarrow> raster_result"
  readAsDataURL :: "blob \<Rightarrow> jsstring option"
  write_image_ok :: bool
  assign_location_ok :: bool
  write_error_ok :: bool
  can_share :: bool
  share_ok :: bool

definition set_ui :: "(ui_state \<Rightarrow> ui_state) \<Rightarrow> world \<Rightarrow> world" where
  "set_ui f w = w\<lparr>ui := f (ui w)\<rparr>"

definition export_filename :: "ui_state \<Rightarrow> jsstring" where
  "export_filename s =
     js ''ritual-card-'' @ (if username (profile s) = [] then js ''card'' else username (profile s))
       @ js ''.png''"

text \<open>\<open>anchorDownload\<close> (v3 and v4).\<close>

definition anchorDownload :: "blob \<Rightarrow> jsstring \<Rightarrow> world \<Rightarrow> world" where
  "anchorDownload b filename w =
     (let url = created w
      in w\<lparr>created := Suc url, live_urls := live_urls w @ [url], anchors := anchors w @ [url],
           downloads := downloads w @ [(url, filename)],
           frames := frames w @ [RemoveAnchor url]\<rparr>)"

text \<open>The callbacks, and the browser running all that are waiting: first the frames, then the timers.\<close>

fun run_task :: "task \<Rightarrow> world \<Rightarrow> world" where
  "run_task (RevokeObjectURL u) w = w\<lparr>live_urls := removeAll u (live_urls w)\<rparr>"
| "run_task ClearExportStatus w = set_ui (\<lambda>s. s\<lparr>exportStatus := []\<rparr>) w"
| "run_task (RemoveAnchor u) w =
     w\<lparr>anchors := removeAll u (anchors w), timers := timers w @ [(10000, RevokeObjectURL u)]\<rparr>"

definition run_frames :: "world \<Rightarrow> world" where
  "run_frames w = fold run_task (frames w) (w\<lparr>frames := []\<rparr>)"

definition run_timers :: "world \<Rightarrow> world" where
  "run_timers w = fold run_task (map snd (timers w)) (w\<lparr>timers := []\<rparr>)"

definition settle :: "world \<Rightarrow> world" where
  "settle w = run_timers (run_frames w)"

text \<open>\<open>preTab && !preTab.closed\<close>, and a write into the tab's document.\<close>

definition tab_open :: "world \<Rightarrow> nat option \<Rightarrow> bool" where
  "tab_open w t = (case t of None \<Rightarrow> False | Some i \<Rightarrow> i < length (tabs w) \<and> \<not> is_closed (tabs w ! i))"

definition set_content :: "nat \<Rightarrow> tab_content \<Rightarrow> world \<Rightarrow> world" where
  "set_content i c w = w\<lparr>tabs := (tabs w)[i := (tabs w ! i)\<lparr>content := c\<rparr>]\<rparr>"

definition close_tab :: "nat \<Rightarrow> world \<Rightarrow> world" where
  "close_tab i w = w\<lparr>tabs := (tabs w)[i := (tabs w ! i)\<lparr>is_closed := True\<rparr>]\<rparr>"

text \<open>\<open>fillTabWithImage\<close> (v3).\<close>

definition fillTabWithImage ::
  "export_env \<Rightarrow> nat option \<Rightarrow> jsstring \<Rightarrow> jsstring \<Rightarrow> world \<Rightarrow> world" where
  "fillTabWithImage env t dataURL filename w =
     (case t of
        None \<Rightarrow> w\<lparr>opened_directly := opened_directly w @ [dataURL]\<rparr>
      | Some i \<Rightarrow>
          if \<not> tab_open w t then w\<lparr>opened_directly := opened_directly w @ [dataURL]\<rparr>
          else if write_image_ok env then set_content i (ImagePage dataURL filename) w
          else if assign_location_ok env then set_content i (ShowsDataURL dataURL) w
          else w)"

subsection \<open>download, v3 (src/unnamed/part_001)\<close>

text \<open>
  The part of \<open>download\<close> that runs in the click handler, up to the first \<open>await\<close>: the
  guard, the tab opened on iOS, and the two setters.  The guard reads \<open>exporting\<close> from the
  render before the click, which is the current state: React re-renders between two clicks.
\<close>

definition open_preTab :: "export_env \<Rightarrow> world \<Rightarrow> nat option \<times> world" where
  "open_preTab env w =
     (if ua_ios env then
        (case window_open env of
           OpenTab \<Rightarrow>
             (Some (length (tabs w)),
              w\<lparr>tabs := tabs w @
                   [\<lparr>is_closed = False,
                     content = (if write_loading_ok env then LoadingPage else Blank)\<rparr>]\<rparr>)
         | _ \<Rightarrow> (None, w))
      else (None, w))"

definition download_start :: "export_env \<Rightarrow> world \<Rightarrow> world" where
  "download_start env w =
     (if \<not> stage_mounted (ui w) \<or> exporting (ui w) then w
      else
        (let filename = export_filename (ui w);
             (preTab, w1) = open_preTab env w;
             w2 = set_ui (\<lambda>s. s\<lparr>exporting := True, exportStatus := js ''Rendering'' @ [0x2026]\<rparr>) w1
         in w2\<lparr>pending := pending w2 @
                  [\<lparr>c_ios = ua_ios env, c_filename = filename, c_tab = preTab\<rparr>]\<rparr>))"

text \<open>The \<open>catch\<close> and \<open>finally\<close> blocks.\<close>

definition export_failed :: "export_env \<Rightarrow> closure \<Rightarrow> world \<Rightarrow> world" where
  "export_failed env c w =
     (let w1 = (case c_tab c of
                  None \<Rightarrow> w
                | Some i \<Rightarrow>
                    if tab_open w (c_tab c) \<and> write_error_ok env then set_content i ErrorPage w
                    else w)
      in set_ui (\<lambda>s. s\<lparr>exportStatus := js ''Export failed '' @ [0x2014] @ js '' tap to retry''\<rparr>) w1)"

definition export_finally :: "nat \<Rightarrow> world \<Rightarrow> world" where
  "export_finally delay w =
     (set_ui (\<lambda>s. s\<lparr>exporting := False\<rparr>) w)\<lparr>timers := timers w @ [(delay, ClearExportStatus)]\<rparr>"

text \<open>
  The rest of \<open>download\<close>, from the first \<open>await\<close> to the end of \<open>finally\<close>, for the call
  with the captured variables \<open>c\<close>.  If the card has been taken off the page meanwhile,
  \<open>stageRef.current\<close> is \<open>null\<close> and \<open>waitForImages\<close> throws.
\<close>

definition download_finish :: "export_env \<Rightarrow> closure \<Rightarrow> world \<Rightarrow> world" where
  "download_finish env c w0 =
     (let w = (case c_tab c of
                 None \<Rightarrow> w0
               | Some i \<Rightarrow> if tab_closed_meanwhile env then close_tab i w0 else w0)
      in export_finally 5000
          (if \<not> stage_mounted (ui w) then export_failed env c w
           else
             (let (r, calls) = renderCardBlob (toBlob env) LIGHT_bg;
                  w1 = w\<lparr>rasterized := rasterized w @ calls\<rparr>
              in case r of
                   Inl e \<Rightarrow> export_failed env c w1
                 | Inr b \<Rightarrow>
                     if c_ios c then
                       (case readAsDataURL env b of
                          None \<Rightarrow> export_failed env c w1
                        | Some dataURL \<Rightarrow>
                            set_ui (\<lambda>s. s\<lparr>exportStatus :=
                                       js ''Long-press the image to save it '' @ [0x2713]\<rparr>)
                              (fillTabWithImage env (c_tab c) dataURL (c_filename c) w1))
                     else
                       set_ui (\<lambda>s. s\<lparr>exportStatus := js ''Downloaded! '' @ [0x2713]\<rparr>)
                         (anchorDownload b (c_filename c) w1))))"

text \<open>A whole export with nothing happening in between.\<close>

definition download :: "export_env \<Rightarrow> world \<Rightarrow> world" where
  "download env w =
     (if \<not> stage_mounted (ui w) \<or> exporting (ui w) then w
      else
        (let w1 = download_start env w
         in download_finish env (last (pending w1)) (w1\<lparr>pending := butlast (pending w1)\<rparr>)))"

subsection \<open>download, v2 (src/app/page.js, first revision)\<close>

text \<open>
  The guard tests the stage only.  \<open>window.open\<close> stands before the \<open>try\<close>: if it throws,
  the call ends there.  There is one \<open>toBlob\<close> call, and the anchor is removed right
  after the click.
\<close>

definition v2_started :: "export_env \<Rightarrow> nat option \<Rightarrow> world \<Rightarrow> world" where
  "v2_started env t w =
     (let w1 = set_ui (\<lambda>s. s\<lparr>exporting := True\<rparr>) w
      in w1\<lparr>pending := pending w1 @
               [\<lparr>c_ios = ua_ios env, c_filename = export_filename (ui w), c_tab = t\<rparr>]\<rparr>)"

definition download_v2_start :: "export_env \<Rightarrow> world \<Rightarrow> world" where
  "download_v2_start env w =
     (if \<not> stage_mounted (ui w) then w
      else if ua_ios env then
        (case window_open env of
           OpenThrows \<Rightarrow> w
         | OpenNull \<Rightarrow> v2_started env None w
         | OpenTab \<Rightarrow>
             v2_started env (Some (length (tabs w)))
               (w\<lparr>tabs := tabs w @ [\<lparr>is_closed = False, content = Blank\<rparr>]\<rparr>))
      else v2_started env None w)"

definition v2_failed :: "closure \<Rightarrow> world \<Rightarrow> world" where
  "v2_failed c w =
     (let w1 = (case c_tab c of None \<Rightarrow> w | Some i \<Rightarrow> close_tab i w)
      in w1\<lparr>alerts := alerts w1 @ [js ''Export failed on iOS. Try again.'']\<rparr>)"

definition v2_deliver :: "export_env \<Rightarrow> closure \<Rightarrow> blob \<Rightarrow> world \<Rightarrow> world" where
  "v2_deliver env c b w =
     (if can_share env then
        (if share_ok env then
           (let w1 = w\<lparr>shared := shared w @ [c_filename c]\<rparr>
            in case c_tab c of None \<Rightarrow> w1 | Some i \<Rightarrow> close_tab i w1)
         else v2_failed c w)
      else
        (let url = created w;
             w1 = w\<lparr>created := Suc url, live_urls := live_urls w @ [url]\<rparr>
         in case (if c_ios c then c_tab c else None) of
              Some i \<Rightarrow>
                (set_content i (ShowsObjectURL url) w1)
                  \<lparr>timers := timers w1 @ [(60000, RevokeObjectURL url)]\<rparr>
            | None \<Rightarrow>
                w1\<lparr>downloads := downloads w1 @ [(url, c_filename c)],
                   timers := timers w1 @ [(2000, RevokeObjectURL url)]\<rparr>))"

definition download_v2_finish :: "export_env \<Rightarrow> closure \<Rightarrow> world \<Rightarrow> world" where
  "download_v2_finish env c w0 =
     (let w = (case c_tab c of
                 None \<Rightarrow> w0
               | Some i \<Rightarrow> if tab_closed_meanwhile env then close_tab i w0 else w0)
      in set_ui (\<lambda>s. s\<lparr>exporting := False\<rparr>)
          (if \<not> stage_mounted (ui w) then v2_failed c w
           else
             (let w1 = w\<lparr>rasterized := rasterized w @ [v2_options]\<rparr>
              in case toBlob env 0 v2_options of
                   RasterThrows \<Rightarrow> v2_failed c w1
                 | RasterReturns None \<Rightarrow> v2_failed c w1
                 | RasterReturns (Some b) \<Rightarrow> v2_deliver env c b w1)))"

definition download_v2 :: "export_env \<Rightarrow> world \<Rightarrow> world" where
  "download_v2 env w =
     (let w1 = download_v2_start env w
      in if length (pending w1) = length (pending w) then w1
         else download_v2_finish env (last (pending w1)) (w1\<lparr>pending := butlast (pending w1)\<rparr>))"

subsection \<open>download, v4 (src/app/page.js, second revision)\<close>

definition download_v4_start :: "export_env \<Rightarrow> world \<Rightarrow> world" where
  "download_v4_start env w =
     (if \<not> stage_mounted (ui w) \<or> exporting (ui w) then w
      else
        (let w1 = set_ui (\<lambda>s. s\<lparr>exporting := True, exportStatus := js ''Rendering'' @ [0x2026]\<rparr>) w
         in w1\<lparr>pending := pending w1 @
                  [\<lparr>c_ios = ua_ios env, c_filename = export_filename (ui w), c_tab = None\<rparr>]\<rparr>))"

definition v4_failed :: "world \<Rightarrow> world" where
  "v4_failed w =
     set_ui (\<lambda>s. s\<lparr>exportStatus := js ''Export failed '' @ [0x2014] @ js '' try again''\<rparr>) w"

definition download_v4_finish :: "export_env \<Rightarrow> closure \<Rightarrow> world \<Rightarrow> world" where
  "download_v4_finish env c w =
     export_finally 4000
       (if \<not> stage_mounted (ui w) then v4_failed w
        else
          (let (r, calls) = renderCardBlob (toBlob env) LIGHT_bg;
               w1 = w\<lparr>rasterized := rasterized w @ calls\<rparr>
           in case r of
                Inl e \<Rightarrow> v4_failed w1
              | Inr b \<Rightarrow>
                  if c_ios c then
                    (case readAsDataURL env b of
                       None \<Rightarrow> v4_failed w1
                     | Some dataURL \<Rightarrow>
                         set_ui (\<lambda>s. s\<lparr>iosSaveDataURL := Some dataURL,
                                       exportStatus := js ''Hold the image to save '' @ [0x2713]\<rparr>)
                           w1)
                  else
                    set_ui (\<lambda>s. s\<lparr>exportStatus := js ''Downloaded! '' @ [0x2713]\<rparr>)
                      (anchorDownload b (c_filename c) w1)))"

definition download_v4 :: "export_env \<Rightarrow> world \<Rightarrow> world" where
  "download_v4 env w =
     (if \<not> stage_mounted (ui w) \<or> exporting (ui w) then w
      else
        (let w1 = download_v4_start env w
         in download_v4_finish env (last (pending w1)) (w1\<lparr>pending := butlast (pending w1)\<rparr>)))"

subsection \<open>The page as a sequence of events\<close>

text \<open>
  The component runs on one event loop: a click on the download button runs \<open>download\<close>
  up to its first \<open>await\<close>; later the export completes, in one step here.  In between the
  user may click again, reset, fill the form and generate, and the browser may run the
  callbacks that are waiting.  The form is on the page while \<open>showCard\<close> is off; the two
  buttons of the card section are on the page while the card is rendered.
\<close>

datatype event =
    TypeHandle jsstring
  | SelectRole jsstring
  | Generate page_env
  | ClickDownload export_env
  | Complete nat export_env
  | ClickReset
  | RunCallbacks

definition without :: "nat \<Rightarrow> 'a list \<Rightarrow> 'a list" where
  "without i xs = take i xs @ drop (Suc i) xs"

fun step_with ::
  "(export_env \<Rightarrow> world \<Rightarrow> world) \<Rightarrow> (export_env \<Rightarrow> closure \<Rightarrow> world \<Rightarrow> world) \<Rightarrow>
   (ui_state \<Rightarrow> ui_state) \<Rightarrow> event \<Rightarrow> world \<Rightarrow> world"
where
  "step_with start finish rst (TypeHandle h) w =
     (if showCard (ui w) then w else set_ui (\<lambda>s. s\<lparr>handle := h\<rparr>) w)"
| "step_with start finish rst (SelectRole r) w =
     (if showCard (ui w) \<or> roleConfig r = None then w else set_ui (\<lambda>s. s\<lparr>selectedRole := r\<rparr>) w)"
| "step_with start finish rst (Generate penv) w =
     (if showCard (ui w) then w else set_ui (\<lambda>s. fst (generateCard penv s)) w)"
| "step_with start finish rst (ClickDownload env) w =
     (if stage_mounted (ui w) then start env w else w)"
| "step_with start finish rst (Complete i env) w =
     (if i < length (pending w)
      then finish env (pending w ! i) (w\<lparr>pending := without i (pending w)\<rparr>)
      else w)"
| "step_with start finish rst ClickReset w =
     (if stage_mounted (ui w) then set_ui rst w else w)"
| "step_with start finish rst RunCallbacks w = settle w"

definition step :: "event \<Rightarrow> world \<Rightarrow> world" where
  "step = step_with download_start download_finish reset"

definition step_v2 :: "event \<Rightarrow> world \<Rightarrow> world" where
  "step_v2 = step_with download_v2_start download_v2_finish reset_v2"

definition step_v4 :: "event \<Rightarrow> world \<Rightarrow> world" where
  "step_v4 = step_with download_v4_start download_v4_finish reset_v4"

text \<open>Sample environments: a desktop browser and an iPhone, with a rasterizer that works or fails.\<close>

definition png :: blob where
  "png = [137, 80, 78, 71]"

definition desktop :: export_env where
  "desktop =
     \<lparr>ua_ios = False, window_open = OpenNull, write_loading_ok = True,
      tab_closed_meanwhile = False, toBlob = (\<lambda>n opts. RasterReturns (Some png)),
      readAsDataURL = (\<lambda>b. Some (js ''data:image/png;base64,iVBORw=='')),
      write_image_ok = True, assign_location_ok = True, write_error_ok = True,
      can_share = False, share_ok = False\<rparr>"


definition failing :: "export_env \<Rightarrow> export_env" where
  "failing env = env\<lparr>toBlob := (\<lambda>n opts. RasterThrows)\<rparr>"

definition null_first :: "export_env \<Rightarrow> export_env" where
  "null_first env =
     env\<lparr>toBlob := (\<lambda>n opts. if n = 0 then RasterReturns None else RasterReturns (Some png))\<rparr>"

text \<open>The page after \<open>@Example\<close> has generated a Mage card while the profile API was down.\<close>

definition card_shown :: world where
  "card_shown = world0\<lparr>ui := fst (generateCard offline_env example_form)\<rparr>"

subsection \<open>Invariants of the page\<close>

text \<open>
  At most one export is in flight, the \<open>exporting\<close> flag says whether one is, and no
  profile fetch is under way (\<open>generateCard\<close> is one step of the event model).
\<close>

definition one_export :: "world \<Rightarrow> bool" where
  "one_export w \<longleftrightarrow>
     length (pending w) \<le> 1 \<and> (exporting (ui w) \<longleftrightarrow> pending w \<noteq> []) \<and> \<not> loading (ui w)"

text \<open>What v2 keeps instead: the flag is off when nothing is in flight, and the cells v2 lacks are never written.\<close>

definition v2_idle :: "world \<Rightarrow> bool" where
  "v2_idle w \<longleftrightarrow>
     (pending w = [] \<longrightarrow> \<not> exporting (ui w)) \<and> \<not> loading (ui w) \<and>
     exportStatus (ui w) = [] \<and> iosSaveDataURL (ui w) = None"

text \<open>
  Every object URL that is alive has its revocation on the way: a timer that revokes it,
  or the frame callback of \<open>anchorDownload\<close> that sets this timer.
\<close>

definition urls_scheduled :: "world \<Rightarrow> bool" where
  "urls_scheduled w \<longleftrightarrow>
     list_all (\<lambda>u. RemoveAnchor u \<in> set (frames w) \<or> RevokeObjectURL u \<in> set (map snd (timers w)))
       (live_urls w)"

subsection \<open>fmtNum\<close>

text \<open>
  \<open>fmtNum\<close> is the same text in all three revisions.  Its argument is modelled for what
  the program passes when a count is known: \<open>undefined\<close>, \<open>null\<close>, or a Number that is an
  integer, given by its value.  Every integer of magnitude below \<open>2^53\<close> is a Number; a
  larger one is a Number only if it is \<open>representable\<close>.  On Numbers \<open>>=\<close> compares
  exactly and \<open>/\<close> is the IEEE 754 division: the exact quotient rounded to the nearest
  double, ties to even.
\<close>

datatype count = CUndefined | CNull | CInt int

text \<open>\<open>ilog2 n\<close> is the position of the leading bit of \<open>n\<close>.\<close>

fun ilog2 :: "nat \<Rightarrow> nat" where
  "ilog2 n = (if n < 2 then 0 else Suc (ilog2 (n div 2)))"

declare ilog2.simps [simp del]

definition round_half_even :: "rat \<Rightarrow> int" where
  "round_half_even r =
     (let f = \<lfloor>r\<rfloor>; d = r - of_int f
      in if d < 1/2 then f else if 1/2 < d then f + 1 else if even f then f else f + 1)"

text \<open>
  The double nearest to a rational \<open>q \<ge> 1\<close> (below the overflow threshold): \<open>q\<close> is
  scaled so that its leading bit is bit 52, rounded to an integer, and scaled back.
\<close>

definition fl :: "rat \<Rightarrow> rat" where
  "fl q =
     (let e = ilog2 (nat \<lfloor>q\<rfloor>)
      in if e \<le> 52 then of_int (round_half_even (q * 2 ^ (52 - e))) / 2 ^ (52 - e)
         else of_int (round_half_even (q / 2 ^ (e - 52))) * 2 ^ (e - 52))"

definition representable :: "int \<Rightarrow> bool" where
  "representable n = (n = 0 \<or> fl (of_int \<bar>n\<bar>) = of_int \<bar>n\<bar>)"

text \<open>
  \<open>Number::toString\<close> on a Number \<open>x\<close> that is a non-negative integer.  Below \<open>2^53\<close>
  neighbouring integers are different Numbers, so the digits are those of \<open>x\<close>.  From
  \<open>2^53\<close> on ECMAScript takes integers \<open>n\<close>, \<open>k\<close> and \<open>s\<close> with \<open>k\<close> as small as
  possible such that \<open>s\<close> has \<open>k\<close> digits and the Number nearest to \<open>s * 10^(n - k)\<close> is
  \<open>x\<close>; of several such \<open>s\<close> the engines take the one whose product is closest to \<open>x\<close>,
  the even one at equal distance, as the standard recommends.  With \<open>d\<close> the number of
  decimal digits of \<open>x\<close>, either the power of ten above \<open>x\<close> rounds to \<open>x\<close> (then
  \<open>s = 1\<close>, \<open>k = 1\<close>, \<open>n = d + 1\<close>), or \<open>n = d\<close> and \<open>s\<close> is the quotient of \<open>x\<close> by
  \<open>10^(n - k)\<close> or its successor; \<open>k = d\<close> with \<open>s = x\<close> always does.  The result is
  \<open>(s, k, n)\<close>.  Up to \<open>n = 21\<close> the string is \<open>s\<close> followed by zeros, beyond that it is
  in exponent notation.
\<close>

definition digit_candidates :: "nat \<Rightarrow> nat \<Rightarrow> nat \<Rightarrow> nat list" where
  "digit_candidates x n k =
     filter (\<lambda>s. 10 ^ (k - 1) \<le> s \<and> s < 10 ^ k \<and> fl (of_nat (s * 10 ^ (n - k))) = of_nat x)
       [x div 10 ^ (n - k), Suc (x div 10 ^ (n - k))]"

definition closer :: "nat \<Rightarrow> nat \<Rightarrow> nat \<Rightarrow> nat \<Rightarrow> nat" where
  "closer x sc a b =
     (let da = \<bar>int x - int (a * sc)\<bar>; db = \<bar>int x - int (b * sc)\<bar>
      in if da < db then a else if db < da then b else if even a then a else b)"

definition shortest_digits :: "nat \<Rightarrow> nat \<times> nat \<times> nat" where
  "shortest_digits x =
     (let n = length (decimal x)
      in if fl (of_nat (10 ^ n)) = of_nat x then (1, 1, Suc n)
         else
           (case find (\<lambda>k. digit_candidates x n k \<noteq> []) [1..<Suc n] of
              None \<Rightarrow> (x, n, n)
            | Some k \<Rightarrow>
                (case digit_candidates x n k of
                   [s] \<Rightarrow> (s, k, n)
                 | a # b # _ \<Rightarrow> (closer x (10 ^ (n - k)) a b, k, n)
                 | [] \<Rightarrow> (x, n, n))))"

definition Number_toString :: "nat \<Rightarrow> jsstring" where
  "Number_toString x =
     (if x < 2 ^ 53 then decimal x
      else
        (let (s, k, n) = shortest_digits x
         in if n \<le> 21 then decimal s @ replicate (n - k) 0x30
            else if k = 1 then decimal s @ js ''e+'' @ decimal (n - 1)
            else [hd (decimal s)] @ js ''.'' @ tl (decimal s) @ js ''e+'' @ decimal (n - 1)))"

text \<open>
  \<open>x.toFixed(1)\<close> for a Number \<open>x \<ge> 0\<close>.  Below \<open>10^21\<close>: with \<open>n\<close> the integer for
  which \<open>n / 10 - x\<close> is closest to zero, the larger one if there are two, the digits of
  \<open>n\<close> with a point before the last one.  From \<open>10^21\<close> on, where every Number is an
  integer, it is \<open>Number::toString\<close>.
\<close>

definition tenths :: "rat \<Rightarrow> nat" where
  "tenths x = nat \<lfloor>10 * x + 1/2\<rfloor>"

definition toFixed1 :: "rat \<Rightarrow> jsstring" where
  "toFixed1 x =
     (if 10 ^ 21 \<le> x then Number_toString (nat \<lfloor>x\<rfloor>)
      else decimal (tenths x div 10) @ js ''.'' @ [digit (tenths x mod 10)])"

text \<open>\<open>String(n)\<close> for a Number \<open>n\<close> that is an integer.\<close>

definition String_of_int :: "int \<Rightarrow> jsstring" where
  "String_of_int n =
     (if n < 0 then js ''-'' @ Number_toString (nat (- n)) else Number_toString (nat n))"

definition fmtNum :: "count \<Rightarrow> jsstring" where
  "fmtNum n =
     (case n of
        CUndefined \<Rightarrow> [0x2014]
      | CNull \<Rightarrow> [0x2014]
      | CInt i \<Rightarrow>
          if 1000000 \<le> i then toFixed1 (fl (of_int i / 1000000)) @ js ''M''
          else if 1000 \<le> i then toFixed1 (fl (of_int i / 1000)) @ js ''K''
          else String_of_int i)"

text \<open>Reading a string of decimal digits back.\<close>

definition digit_value :: "jschar \<Rightarrow> nat" where
  "digit_value c = unat c - 48"

definition read_decimal :: "jsstring \<Rightarrow> nat" where
  "read_decimal s = foldl (\<lambda>a c. 10 * a + digit_value c) 0 s"

definition is_digit :: "jschar \<Rightarrow> bool" where
  "is_digit c = (48 \<le> c \<and> c \<le> 57)"

text \<open>The Number nearest to \<open>10^27\<close>, as \<open>JSON.parse\<close> gives it for \<open>1e27\<close>.\<close>

definition near_1e27 :: int where
  "near_1e27 = 1000000000000000013287555072"

text \<open>The Number nearest to \<open>10^23\<close>, which lies below it.\<close>

definition near_1e23 :: int where
  "near_1e23 = 99999999999999991611392"
section \<open>Properties of the relay\<close>

lemma endsWith_append: "endsWith s t \<longleftrightarrow> (\<exists>p. s = p @ t)"
proof
  assume "endsWith s t"
  then have "s = take (length s - length t) s @ t"
    by (metis append_take_drop_id endsWith_def)
  then show "\<exists>p. s = p @ t" ..
next
  assume "\<exists>p. s = p @ t"
  then show "endsWith s t"
    by (auto simp: endsWith_def)
qed

lemma isAllowed_iff:
  "isAllowed host \<longleftrightarrow>
     (\<exists>h \<in> set allowedHosts. host = h \<or> (\<exists>p. host = p @ js ''.'' @ h))"
  by (auto simp: isAllowed_def list_ex_iff endsWith_append)

lemma GET_rejected_host:
  assumes "url \<noteq> []" "hostname url = Some host" "\<not> isAllowed host"
  shows "GET hostname fetch (Some url) = (text_response (js ''Host not allowed'') 403, [])"
  using assms by (simp add: GET_def)

lemma GET_allowed_host:
  assumes "url \<noteq> []" "hostname url = Some host" "isAllowed host"
  shows "GET hostname fetch (Some url) =
           (relay_upstream (fetch url upstream_init), [(url, upstream_init)])"
  using assms by (simp add: GET_def)

lemma pbs_in_allowedHosts: "js ''pbs.twimg.com'' \<in> set allowedHosts"
  by (simp add: allowedHosts_def)

lemma twimg_in_allowedHosts: "js ''twimg.com'' \<in> set allowedHosts"
  by (simp add: allowedHosts_def)

lemma sub_not_in_allowedHosts: "js ''sub.twimg.com'' \<notin> set allowedHosts"
  by (simp add: allowedHosts_def js_def)

lemma sub_endsWith_twimg: "endsWith (js ''sub.twimg.com'') (js ''.'' @ js ''twimg.com'')"
  by (simp add: endsWith_def js_def)

lemma evil_not_allowed: "\<not> isAllowed (js ''evil.com'')"
  by (simp add: isAllowed_def allowedHosts_def endsWith_def js_def)

lemma pbs_allowed: "isAllowed (js ''pbs.twimg.com'')"
  using pbs_in_allowedHosts by (simp add: isAllowed_def)

lemma sub_allowed: "isAllowed (js ''sub.twimg.com'')"
  using twimg_in_allowedHosts sub_endsWith_twimg
  by (auto simp: isAllowed_def list_ex_iff)

lemma js_nonempty: "js (c # cs) \<noteq> []"
  by (simp add: js_def)

text \<open>
  Claim C1.  A relay request whose \<open>url\<close> parameter parses (the empty string is not a URL)
  to a hostname that is neither an entry of the allow-list nor ends with a dot followed by an
  entry is answered with status 403, and no upstream request is made.  With a parser that
  reads the hostnames of the three sample URLs: \<open>https://pbs.twimg.com/profile.jpg\<close> passes
  by exact match and is fetched, \<open>https://sub.twimg.com/x.jpg\<close> is not an entry but passes by
  the suffix \<open>.twimg.com\<close> and is fetched, and \<open>https://evil.com/x.jpg\<close> gets 403 without
  a fetch.
\<close>

theorem relay_host_allow_list:
  "(url \<noteq> [] \<and> hostname url = Some host \<and>
      \<not> (\<exists>h \<in> set allowedHosts. host = h \<or> endsWith host (js ''.'' @ h)) \<longrightarrow>
      status (fst (GET hostname fetch (Some url))) = 403 \<and>
      snd (GET hostname fetch (Some url)) = [])
   \<and> (hostname (js ''https://pbs.twimg.com/profile.jpg'') = Some (js ''pbs.twimg.com'') \<longrightarrow>
      js ''pbs.twimg.com'' \<in> set allowedHosts \<and>
      GET hostname fetch (Some (js ''https://pbs.twimg.com/profile.jpg'')) =
        (relay_upstream (fetch (js ''https://pbs.twimg.com/profile.jpg'') upstream_init),
         [(js ''https://pbs.twimg.com/profile.jpg'', upstream_init)]))
   \<and> (hostname (js ''https://sub.twimg.com/x.jpg'') = Some (js ''sub.twimg.com'') \<longrightarrow>
      js ''sub.twimg.com'' \<notin> set allowedHosts \<and>
      endsWith (js ''sub.twimg.com'') (js ''.'' @ js ''twimg.com'') \<and>
      GET hostname fetch (Some (js ''https://sub.twimg.com/x.jpg'')) =
        (relay_upstream (fetch (js ''https://sub.twimg.com/x.jpg'') upstream_init),
         [(js ''https://sub.twimg.com/x.jpg'', upstream_init)]))
   \<and> (hostname (js ''https://evil.com/x.jpg'') = Some (js ''evil.com'') \<longrightarrow>
      status (fst (GET hostname fetch (Some (js ''https://evil.com/x.jpg'')))) = 403 \<and>
      snd (GET hostname fetch (Some (js ''https://evil.com/x.jpg''))) = [])"
proof (intro conjI impI)
  assume h: "url \<noteq> [] \<and> hostname url = Some host \<and>
      \<not> (\<exists>h \<in> set allowedHosts. host = h \<or> endsWith host (js ''.'' @ h))"
  then have "\<not> isAllowed host"
    by (auto simp: isAllowed_def list_ex_iff)
  with h have g: "GET hostname fetch (Some url) = (text_response (js ''Host not allowed'') 403, [])"
    by (simp add: GET_rejected_host)
  show "status (fst (GET hostname fetch (Some url))) = 403"
    by (simp add: g text_response_def)
  show "snd (GET hostname fetch (Some url)) = []"
    by (simp add: g)
next
  show "js ''pbs.twimg.com'' \<in> set allowedHosts"
    by (rule pbs_in_allowedHosts)
next
  assume "hostname (js ''https://pbs.twimg.com/profile.jpg'') = Some (js ''pbs.twimg.com'')"
  then show "GET hostname fetch (Some (js ''https://pbs.twimg.com/profile.jpg'')) =
        (relay_upstream (fetch (js ''https://pbs.twimg.com/profile.jpg'') upstream_init),
         [(js ''https://pbs.twimg.com/profile.jpg'', upstream_init)])"
    using pbs_allowed by (simp add: GET_allowed_host js_nonempty)
next
  show "js ''sub.twimg.com'' \<notin> set allowedHosts"
    by (rule sub_not_in_allowedHosts)
next
  show "endsWith (js ''sub.twimg.com'') (js ''.'' @ js ''twimg.com'')"
    by (rule sub_endsWith_twimg)
next
  assume "hostname (js ''https://sub.twimg.com/x.jpg'') = Some (js ''sub.twimg.com'')"
  then show "GET hostname fetch (Some (js ''https://sub.twimg.com/x.jpg'')) =
        (relay_upstream (fetch (js ''https://sub.twimg.com/x.jpg'') upstream_init),
         [(js ''https://sub.twimg.com/x.jpg'', upstream_init)])"
    using sub_allowed by (simp add: GET_allowed_host js_nonempty)
next
  assume h: "hostname (js ''https://evil.com/x.jpg'') = Some (js ''evil.com'')"
  have g: "GET hostname fetch (Some (js ''https://evil.com/x.jpg'')) =
             (text_response (js ''Host not allowed'') 403, [])"
    using h evil_not_allowed by (simp add: GET_rejected_host js_nonempty)
  show "status (fst (GET hostname fetch (Some (js ''https://evil.com/x.jpg'')))) = 403"
    by (simp add: g text_response_def)
  show "snd (GET hostname fetch (Some (js ''https://evil.com/x.jpg''))) = []"
    by (simp add: g)
qed

lemma sample_hostname_pbs:
  "sample_hostname (js ''https://pbs.twimg.com/profile.jpg'') = Some (js ''pbs.twimg.com'')"
  by (simp add: sample_hostname_def js_def)

lemma sample_hostname_sub:
  "sample_hostname (js ''https://sub.twimg.com/x.jpg'') = Some (js ''sub.twimg.com'')"
  by (simp add: sample_hostname_def js_def)

lemma sample_hostname_evil:
  "sample_hostname (js ''https://evil.com/x.jpg'') = Some (js ''evil.com'')"
  by (simp add: sample_hostname_def js_def)

lemma evil_no_entry:
  "\<not> (\<exists>h \<in> set allowedHosts. js ''evil.com'' = h \<or> endsWith (js ''evil.com'') (js ''.'' @ h))"
  using evil_not_allowed by (auto simp: isAllowed_def list_ex_iff)

theorem relay_host_allow_list_witness:
  "status (fst (GET sample_hostname sample_fetch (Some (js ''https://evil.com/x.jpg'')))) = 403 \<and>
   snd (GET sample_hostname sample_fetch (Some (js ''https://evil.com/x.jpg''))) = [] \<and>
   snd (GET sample_hostname sample_fetch (Some (js ''https://pbs.twimg.com/profile.jpg''))) =
     [(js ''https://pbs.twimg.com/profile.jpg'', upstream_init)] \<and>
   snd (GET sample_hostname sample_fetch (Some (js ''https://sub.twimg.com/x.jpg''))) =
     [(js ''https://sub.twimg.com/x.jpg'', upstream_init)]"
  using relay_host_allow_list [of "js ''https://evil.com/x.jpg''" sample_hostname
      "js ''evil.com''" sample_fetch]
    sample_hostname_pbs sample_hostname_sub sample_hostname_evil evil_no_entry js_nonempty
  by simp

lemma relay_upstream_status:
  "status (relay_upstream r) =
     (case r of
        Rejected \<Rightarrow> 500
      | Resolved up \<Rightarrow>
          if \<not> up_ok up then 502 else if up_arrayBuffer up = None then 500 else 200)"
  by (simp add: relay_upstream_def text_response_def Let_def split: fetch_result.split option.split)

lemma relay_upstream_success:
  assumes "up_ok up" "up_arrayBuffer up = Some bytes"
  shows "relay_upstream (Resolved up) =
           \<lparr>status = 200, body = Bytes bytes,
            headers =
              [(js ''content-type'',
                (case up_content_type up of
                   None \<Rightarrow> js ''image/jpeg''
                 | Some c \<Rightarrow> if c = [] then js ''image/jpeg'' else c)),
               (js ''cache-control'', js ''public, max-age=3600, s-maxage=3600''),
               (js ''access-control-allow-origin'', js ''*'')]\<rparr>"
  using assms by (simp add: relay_upstream_def Let_def)

text \<open>
  Claim C5.  The status of every relay response is one of 400, 403, 502, 500 and 200, each in
  its own case: 400 when the \<open>url\<close> parameter is absent (or empty) or does not parse; 403
  when the parsed host is not allowed; 500 when the upstream fetch or the reading of its body
  throws; 502 when the upstream response is not ok; and otherwise 200, with the upstream
  bytes as body and exactly the headers \<open>content-type\<close> (the upstream value, or
  \<open>image/jpeg\<close> when the upstream header is absent or empty), \<open>cache-control: public,
  max-age=3600, s-maxage=3600\<close> and \<open>access-control-allow-origin: *\<close>.
\<close>

theorem relay_response_cases:
  "status (fst (GET hostname fetch param)) \<in> {400, 403, 502, 500, 200}
   \<and> (param = None \<or> param = Some [] \<longrightarrow> status (fst (GET hostname fetch param)) = 400)
   \<and> (param = Some url \<and> hostname url = None \<longrightarrow>
        status (fst (GET hostname fetch param)) = 400)
   \<and> (param = Some url \<and> url \<noteq> [] \<and> hostname url = Some host \<and> \<not> isAllowed host \<longrightarrow>
        status (fst (GET hostname fetch param)) = 403)
   \<and> (param = Some url \<and> url \<noteq> [] \<and> hostname url = Some host \<and> isAllowed host \<longrightarrow>
        (fetch url upstream_init = Rejected \<longrightarrow>
           status (fst (GET hostname fetch param)) = 500) \<and>
        (fetch url upstream_init = Resolved up \<and> \<not> up_ok up \<longrightarrow>
           status (fst (GET hostname fetch param)) = 502) \<and>
        (fetch url upstream_init = Resolved up \<and> up_ok up \<and> up_arrayBuffer up = None \<longrightarrow>
           status (fst (GET hostname fetch param)) = 500) \<and>
        (fetch url upstream_init = Resolved up \<and> up_ok up \<and> up_arrayBuffer up = Some bytes \<longrightarrow>
           fst (GET hostname fetch param) =
             \<lparr>status = 200, body = Bytes bytes,
              headers =
                [(js ''content-type'',
                  (case up_content_type up of
                     None \<Rightarrow> js ''image/jpeg''
                   | Some c \<Rightarrow> if c = [] then js ''image/jpeg'' else c)),
                 (js ''cache-control'', js ''public, max-age=3600, s-maxage=3600''),
                 (js ''access-control-allow-origin'', js ''*'')]\<rparr>))"
proof (intro conjI impI)
  show "status (fst (GET hostname fetch param)) \<in> {400, 403, 502, 500, 200}"
    by (simp add: GET_def text_response_def relay_upstream_status
        split: option.split fetch_result.split)
next
  assume "param = None \<or> param = Some []"
  then show "status (fst (GET hostname fetch param)) = 400"
    by (auto simp: GET_def text_response_def)
next
  assume "param = Some url \<and> hostname url = None"
  then show "status (fst (GET hostname fetch param)) = 400"
    by (simp add: GET_def text_response_def)
next
  assume "param = Some url \<and> url \<noteq> [] \<and> hostname url = Some host \<and> \<not> isAllowed host"
  then show "status (fst (GET hostname fetch param)) = 403"
    by (simp add: GET_rejected_host text_response_def)
next
  assume "param = Some url \<and> url \<noteq> [] \<and> hostname url = Some host \<and> isAllowed host"
    and "fetch url upstream_init = Rejected"
  then show "status (fst (GET hostname fetch param)) = 500"
    by (simp add: GET_allowed_host relay_upstream_status)
next
  assume "param = Some url \<and> url \<noteq> [] \<and> hostname url = Some host \<and> isAllowed host"
    and "fetch url upstream_init = Resolved up \<and> \<not> up_ok up"
  then show "status (fst (GET hostname fetch param)) = 502"
    by (simp add: GET_allowed_host relay_upstream_status)
next
  assume "param = Some url \<and> url \<noteq> [] \<and> hostname url = Some host \<and> isAllowed host"
    and "fetch url upstream_init = Resolved up \<and> up_ok up \<and> up_arrayBuffer up = None"
  then show "status (fst (GET hostname fetch param)) = 500"
    by (simp add: GET_allowed_host relay_upstream_status)
next
  assume "param = Some url \<and> url \<noteq> [] \<and> hostname url = Some host \<and> isAllowed host"
    and "fetch url upstream_init = Resolved up \<and> up_ok up \<and> up_arrayBuffer up = Some bytes"
  then show "fst (GET hostname fetch param) =
             \<lparr>status = 200, body = Bytes bytes,
              headers =
                [(js ''content-type'',
                  (case up_content_type up of
                     None \<Rightarrow> js ''image/jpeg''
                   | Some c \<Rightarrow> if c = [] then js ''image/jpeg'' else c)),
                 (js ''cache-control'', js ''public, max-age=3600, s-maxage=3600''),
                 (js ''access-control-allow-origin'', js ''*'')]\<rparr>"
    by (simp add: GET_allowed_host relay_upstream_success)
qed

lemma sample_fetch_up: "sample_fetch url init = Resolved sample_up"
  by (simp add: sample_fetch_def)

lemma sample_up_fields:
  "up_ok sample_up" "up_arrayBuffer sample_up = Some [137, 80, 78, 71]"
  "up_content_type sample_up = Some (js ''image/png'')"
  by (simp_all add: sample_up_def)

theorem relay_response_cases_witness:
  "fst (GET sample_hostname sample_fetch (Some (js ''https://pbs.twimg.com/profile.jpg''))) =
     \<lparr>status = 200, body = Bytes [137, 80, 78, 71],
      headers =
        [(js ''content-type'', js ''image/png''),
         (js ''cache-control'', js ''public, max-age=3600, s-maxage=3600''),
         (js ''access-control-allow-origin'', js ''*'')]\<rparr>
   \<and> status (fst (GET sample_hostname sample_fetch None)) = 400
   \<and> status (fst (GET sample_hostname sample_fetch (Some (js ''not a url'')))) = 400
   \<and> status (fst (GET sample_hostname sample_fetch (Some (js ''https://evil.com/x.jpg'')))) = 403"
proof (intro conjI)
  show "fst (GET sample_hostname sample_fetch (Some (js ''https://pbs.twimg.com/profile.jpg''))) =
     \<lparr>status = 200, body = Bytes [137, 80, 78, 71],
      headers =
        [(js ''content-type'', js ''image/png''),
         (js ''cache-control'', js ''public, max-age=3600, s-maxage=3600''),
         (js ''access-control-allow-origin'', js ''*'')]\<rparr>"
    using relay_response_cases [of sample_hostname sample_fetch
        "Some (js ''https://pbs.twimg.com/profile.jpg'')" "js ''https://pbs.twimg.com/profile.jpg''"
        "js ''pbs.twimg.com''" sample_up "[137, 80, 78, 71]"]
      sample_hostname_pbs pbs_allowed sample_fetch_up sample_up_fields js_nonempty
    by (simp add: js_def)
  show "status (fst (GET sample_hostname sample_fetch None)) = 400"
    using relay_response_cases [of sample_hostname sample_fetch None] by simp
  have "sample_hostname (js ''not a url'') = None"
    by (simp add: sample_hostname_def js_def)
  then show "status (fst (GET sample_hostname sample_fetch (Some (js ''not a url'')))) = 400"
    using relay_response_cases [of sample_hostname sample_fetch "Some (js ''not a url'')"
        "js ''not a url''"]
    by simp
  show "status (fst (GET sample_hostname sample_fetch (Some (js ''https://evil.com/x.jpg'')))) = 403"
    using relay_response_cases [of sample_hostname sample_fetch
        "Some (js ''https://evil.com/x.jpg'')" "js ''https://evil.com/x.jpg''" "js ''evil.com''"]
      sample_hostname_evil evil_not_allowed js_nonempty
    by simp
qed

section \<open>Properties of the handle normalisation\<close>

lemma js_at: "js ''@'' = [0x40]"
  by (simp add: js_def)

lemma replace_at_first:
  "0x40 \<notin> set a \<Longrightarrow> replace (js ''@'') [] (a @ 0x40 # r) = a @ r"
  by (induction a) (auto simp: js_at)

lemma replace_at_none:
  "0x40 \<notin> set h \<Longrightarrow> replace (js ''@'') [] h = h"
  by (induction h) (auto simp: js_at)

lemma at_not_whitespace: "\<not> isWhiteSpace 0x40"
  by (simp add: isWhiteSpace_def)

lemma whitespace_no_at: "list_all isWhiteSpace a \<Longrightarrow> 0x40 \<notin> set a"
  using at_not_whitespace by (auto simp: list_all_iff)

lemma dropWhile_all: "list_all P a \<Longrightarrow> dropWhile P (a @ r) = dropWhile P r"
  by (induction a) auto

lemma trim_leading: "list_all isWhiteSpace a \<Longrightarrow> trim (a @ r) = trim r"
  by (simp add: trim_def dropWhile_all)

lemma trim_middle:
  "dropWhile isWhiteSpace s = trim s @ rev (takeWhile isWhiteSpace (rev (dropWhile isWhiteSpace s)))"
  unfolding trim_def by (metis rev_append rev_rev_ident takeWhile_dropWhile_id)

lemma trim_decomp:
  "\<exists>a b. s = a @ trim s @ b \<and> list_all isWhiteSpace a \<and> list_all isWhiteSpace b"
proof -
  let ?a = "takeWhile isWhiteSpace s"
  let ?m = "dropWhile isWhiteSpace s"
  let ?b = "rev (takeWhile isWhiteSpace (rev ?m))"
  have "s = ?a @ ?m" by simp
  moreover have "?m = trim s @ ?b" by (rule trim_middle)
  moreover have "list_all isWhiteSpace ?a"
    by (simp add: list_all_iff) (meson set_takeWhileD)
  moreover have "list_all isWhiteSpace ?b"
    by (simp add: list_all_iff) (meson set_takeWhileD)
  ultimately show ?thesis by metis
qed

lemma trim_ends:
  assumes ne: "trim s \<noteq> []"
  shows "\<not> isWhiteSpace (hd (trim s)) \<and> \<not> isWhiteSpace (last (trim s))"
proof -
  let ?m = "dropWhile isWhiteSpace s"
  note m = trim_middle [of s]
  from ne m have "?m \<noteq> []" by (metis append_is_Nil_conv)
  then have "\<not> isWhiteSpace (hd ?m)" by (rule hd_dropWhile)
  moreover from ne m have "hd ?m = hd (trim s)" by (metis hd_append2)
  moreover have "last (trim s) = hd (dropWhile isWhiteSpace (rev ?m))"
    using ne by (simp add: trim_def last_rev)
  moreover have "\<not> isWhiteSpace (hd (dropWhile isWhiteSpace (rev ?m)))"
  proof (rule hd_dropWhile)
    from ne show "dropWhile isWhiteSpace (rev ?m) \<noteq> []"
      unfolding trim_def by (metis rev_is_Nil_conv)
  qed
  ultimately show ?thesis by simp
qed

lemma generateCard_valid:
  assumes "trim (replace (js ''@'') [] (handle s)) = name" "name \<noteq> []" "selectedRole s \<noteq> []"
  shows "generateCard env s =
           (s\<lparr>error := [], loading := False,
              profile :=
                resolve_profile env name (fetchProfile env (js ''https://api.fxtwitter.com/'' @ name)),
              showCard := True\<rparr>,
            [js ''https://api.fxtwitter.com/'' @ name])"
  using assms by (simp add: generateCard_def Let_def)

lemma read_texts_username: "username (read_texts u p) = username p"
  by (simp add: read_texts_def)

lemma read_user_username: "username (read_user env name u p) = username p"
  by (simp add: read_user_def Let_def read_texts_username split: jsval.split option.split)

lemma resolve_profile_username: "username (resolve_profile env name r) = name"
  by (simp add: resolve_profile_def Let_def read_user_username
      split: profile_fetch.split option.split)

lemma generateCard_username:
  assumes "trim (replace (js ''@'') [] (handle s)) = name" "name \<noteq> []" "selectedRole s \<noteq> []"
  shows "username (profile (fst (generateCard env s))) = name"
  by (simp add: generateCard_valid [OF assms] resolve_profile_username)

lemma example_name: "trim (replace (js ''@'') [] (js ''@Example '')) = js ''Example''"
  by (simp add: trim_def js_def isWhiteSpace_def)

lemma roleConfig_Mage:
  "roleConfig (js ''Mage'') =
     Some \<lparr>stars = 3, rarity = js ''MAGE'', emoji = [0xD83D, 0xDD2E],
           color = js ''#CC44FF'', colorDark = js ''#6622AA''\<rparr>"
  by (simp add: roleConfig_def role_table_def js_def)

lemma dropWhile_self: "xs \<noteq> [] \<Longrightarrow> \<not> P (hd xs) \<Longrightarrow> dropWhile P xs = xs"
  by (cases xs) simp_all

lemma trim_core:
  assumes "list_all isWhiteSpace pre" "list_all isWhiteSpace post" "m \<noteq> []"
    "\<not> isWhiteSpace (hd m)" "\<not> isWhiteSpace (last m)"
  shows "trim (pre @ m @ post) = m"
proof -
  have "dropWhile isWhiteSpace (m @ post) = m @ post"
    using assms(3,4) by (intro dropWhile_self) simp_all
  then have a: "dropWhile isWhiteSpace (pre @ m @ post) = m @ post"
    using assms(1) by (simp add: dropWhile_all)
  have "dropWhile isWhiteSpace (rev m) = rev m"
    using assms(3,5) by (intro dropWhile_self) (simp_all add: hd_rev)
  then have b: "dropWhile isWhiteSpace (rev post @ rev m) = rev m"
    using assms(2) by (simp add: dropWhile_all)
  show ?thesis by (simp add: trim_def a b)
qed

lemma trim_idem: "trim (trim s) = trim s"
proof (cases "trim s = []")
  case True
  moreover have "trim [] = []" by (simp add: trim_def)
  ultimately show ?thesis by simp
next
  case False
  then show ?thesis using trim_core [of "[]" "[]" "trim s"] trim_ends [of s] by simp
qed

lemma trim_subset: "set (trim s) \<subseteq> set s"
proof -
  obtain a b where "s = a @ trim s @ b" using trim_decomp by blast
  then have "set s = set a \<union> set (trim s) \<union> set b" by (metis set_append Un_assoc)
  then show ?thesis by blast
qed

lemma strip_leading_at_hd: "s \<noteq> [] \<Longrightarrow> hd s \<noteq> 0x40 \<Longrightarrow> strip_leading_at s = s"
  by (cases s) (simp_all add: strip_leading_at_def)

lemma strip_leading_at_none: "0x40 \<notin> set s \<Longrightarrow> strip_leading_at s = s"
  by (cases s) (auto simp: strip_leading_at_def)

lemma spec_handle_no_at:
  assumes "0x40 \<notin> set h"
  shows "spec_handle h = trim h"
proof -
  have "0x40 \<notin> set (trim h)" using assms trim_subset [of h] by blast
  then have "strip_leading_at (trim h) = trim h" by (rule strip_leading_at_none)
  then show ?thesis by (simp add: spec_handle_def trim_idem)
qed

lemma spec_handle_leading_at:
  assumes a: "list_all isWhiteSpace a" and ne: "trim r \<noteq> []"
  shows "spec_handle (a @ 0x40 # r) = trim r"
proof -
  define m where "m = trim r"
  obtain pre post where r: "r = pre @ m @ post"
    and ws: "list_all isWhiteSpace pre" "list_all isWhiteSpace post"
    unfolding m_def using trim_decomp by blast
  have m: "m \<noteq> []" "\<not> isWhiteSpace (hd m)" "\<not> isWhiteSpace (last m)"
    using ne trim_ends [OF ne] by (simp_all add: m_def)
  have "trim (a @ (0x40 # pre @ m) @ post) = 0x40 # pre @ m"
    using a ws(2) m by (intro trim_core) (simp_all add: at_not_whitespace)
  then have "trim (a @ 0x40 # r) = 0x40 # pre @ m" by (simp add: r)
  moreover have "trim (pre @ m) = m"
    using trim_core [of pre "[]" m] ws(1) m by simp
  ultimately show ?thesis by (simp add: spec_handle_def strip_leading_at_def m_def)
qed

text \<open>
  Where the first \<open>@\<close> follows a character that is not whitespace, \<open>generateCard\<close>
  removes it all the same, and the result is shorter than the specification's normal form,
  which keeps it.
\<close>

lemma length_dropWhile_append:
  "length (dropWhile P (xs @ ys)) \<le> length (dropWhile P xs) + length ys"
proof (induction xs)
  case Nil
  show ?case by (simp add: length_dropWhile_le)
next
  case (Cons x xs)
  then show ?case by simp
qed

lemma trim_inner_at:
  assumes "\<not> list_all isWhiteSpace a"
  shows "trim (a @ 0x40 # r) =
           dropWhile isWhiteSpace a @ 0x40 # rev (dropWhile isWhiteSpace (rev r))"
proof -
  from assms obtain x where x: "x \<in> set a" "\<not> isWhiteSpace x" by (auto simp: list_all_iff)
  then have "dropWhile isWhiteSpace (a @ 0x40 # r) = dropWhile isWhiteSpace a @ 0x40 # r"
    by (rule dropWhile_append1)
  moreover have "dropWhile isWhiteSpace (rev r @ 0x40 # rev (dropWhile isWhiteSpace a)) =
      dropWhile isWhiteSpace (rev r) @ 0x40 # rev (dropWhile isWhiteSpace a)"
    using at_not_whitespace by (rule dropWhile_append3)
  ultimately show ?thesis by (simp add: trim_def)
qed

lemma trim_first_at_removed:
  assumes "\<not> list_all isWhiteSpace a"
  shows "length (trim (a @ r)) \<le>
           length (dropWhile isWhiteSpace a) + length (dropWhile isWhiteSpace (rev r))"
    and "trim (a @ r) \<noteq> []"
proof -
  from assms obtain x where x: "x \<in> set a" "\<not> isWhiteSpace x" by (auto simp: list_all_iff)
  then have d: "dropWhile isWhiteSpace (a @ r) = dropWhile isWhiteSpace a @ r"
    by (rule dropWhile_append1)
  have t: "trim (a @ r) = rev (dropWhile isWhiteSpace (rev r @ rev (dropWhile isWhiteSpace a)))"
    by (simp add: trim_def d)
  show "length (trim (a @ r)) \<le>
           length (dropWhile isWhiteSpace a) + length (dropWhile isWhiteSpace (rev r))"
    using length_dropWhile_append [of isWhiteSpace "rev r" "rev (dropWhile isWhiteSpace a)"]
    by (simp add: t)
  from x have "dropWhile isWhiteSpace a \<noteq> []"
    by (auto simp: dropWhile_eq_Nil_conv)
  then have "\<not> isWhiteSpace (hd (dropWhile isWhiteSpace a))" by (rule hd_dropWhile)
  moreover have "hd (dropWhile isWhiteSpace a) \<in> set (rev r @ rev (dropWhile isWhiteSpace a))"
    using \<open>dropWhile isWhiteSpace a \<noteq> []\<close> by simp
  ultimately have "dropWhile isWhiteSpace (rev r @ rev (dropWhile isWhiteSpace a)) \<noteq> []"
    unfolding dropWhile_eq_Nil_conv by blast
  then show "trim (a @ r) \<noteq> []" by (simp add: t)
qed

lemma spec_handle_inner_at:
  assumes "0x40 \<notin> set a" "\<not> list_all isWhiteSpace a"
  shows "spec_handle (a @ 0x40 # r) = trim (a @ 0x40 # r)"
    and "trim (a @ r) \<noteq> spec_handle (a @ 0x40 # r)"
proof -
  let ?a = "dropWhile isWhiteSpace a"
  let ?T = "trim (a @ 0x40 # r)"
  from assms(2) obtain x where x: "x \<in> set a" "\<not> isWhiteSpace x" by (auto simp: list_all_iff)
  then have ne: "?a \<noteq> []" by (auto simp: dropWhile_eq_Nil_conv)
  then have "hd ?a \<in> set ?a" by simp
  then have "hd ?a \<in> set a" by (meson set_dropWhileD)
  with assms(1) have "hd ?a \<noteq> 0x40" by auto
  then have "?T \<noteq> []" "hd ?T \<noteq> 0x40"
    using ne by (simp_all add: trim_inner_at [OF assms(2)])
  then have "strip_leading_at ?T = ?T" by (rule strip_leading_at_hd)
  then show s: "spec_handle (a @ 0x40 # r) = ?T" by (simp add: spec_handle_def trim_idem)
  have "length (trim (a @ r)) < length ?T"
    using trim_first_at_removed(1) [OF assms(2), of r] by (simp add: trim_inner_at [OF assms(2)])
  then show "trim (a @ r) \<noteq> spec_handle (a @ 0x40 # r)" unfolding s by auto
qed

text \<open>What \<open>generateCard\<close> does with every handle that holds an \<open>@\<close>: the first one goes.\<close>

lemma generateCard_removes_first_at:
  assumes "selectedRole s \<noteq> []" "handle s = a @ 0x40 # r" "0x40 \<notin> set a" "trim (a @ r) \<noteq> []"
  shows "username (profile (fst (generateCard env s))) = trim (a @ r)"
proof -
  have "trim (replace (js ''@'') [] (handle s)) = trim (a @ r)"
    using assms by (simp add: replace_at_first)
  with assms show ?thesis by (simp add: generateCard_username)
qed

lemma inner_at_form_fields:
  "handle inner_at_form = js '' bob@x ''" "selectedRole inner_at_form = js ''Mage''"
  "selectedRole inner_at_form \<noteq> []"
  by (simp_all add: inner_at_form_def js_def)

lemma inner_at_name: "trim (replace (js ''@'') [] (js '' bob@x '')) = js ''bobx''"
  by (simp add: trim_def js_def isWhiteSpace_def)

lemma inner_at_spec: "spec_handle (js '' bob@x '') = js ''bob@x''"
  by (simp add: spec_handle_def strip_leading_at_def trim_def js_def isWhiteSpace_def)

lemma inner_at_username:
  "username (profile (fst (generateCard env inner_at_form))) = js ''bobx''"
proof -
  have "trim (replace (js ''@'') [] (handle inner_at_form)) = js ''bobx''"
    by (simp add: inner_at_form_fields inner_at_name)
  moreover have "js ''bobx'' \<noteq> []" by (simp add: js_def)
  ultimately show ?thesis
    by (rule generateCard_username) (rule inner_at_form_fields(3))
qed

text \<open>
  Claim C3 does not hold for every handle with surrounding whitespace.  For the handle
  \<open>" bob@x "\<close> the input trimmed and without a leading \<open>@\<close> is \<open>"bob@x"\<close>: it has no
  leading \<open>@\<close> to strip.  \<open>generateCard\<close> resolves the username \<open>"bobx"\<close>.
\<close>

theorem inner_at_counterexample:
  "handle inner_at_form = js '' bob@x '' \<and> selectedRole inner_at_form = js ''Mage'' \<and>
   isWhiteSpace (hd (handle inner_at_form)) \<and> isWhiteSpace (last (handle inner_at_form)) \<and>
   spec_handle (handle inner_at_form) = js ''bob@x'' \<and>
   username (profile (fst (generateCard offline_env inner_at_form))) = js ''bobx'' \<and>
   username (profile (fst (generateCard offline_env inner_at_form))) \<noteq>
     spec_handle (handle inner_at_form)"
  by (simp add: inner_at_username inner_at_form_fields(1,2) inner_at_spec)
    (simp add: js_def isWhiteSpace_def)

text \<open>
  Claim C3, for the handles whose \<open>@\<close> is leading or absent.  When \<open>generateCard\<close>
  resolves a record (a role is selected and the normalised handle is not empty) from a
  handle whose first \<open>@\<close> has at most whitespace before it, or from a handle without
  \<open>@\<close>, the record's \<open>username\<close> is the specification's normal form of the handle: the
  input trimmed, without its leading \<open>@\<close>, trimmed.  In the first case that is the trimmed
  rest after the \<open>@\<close>, in the second the trimmed handle.  Trimming removes exactly a run of
  whitespace at each end and leaves no whitespace at either end.  For the handle
  \<open>"@Example "\<close> with role \<open>Mage\<close> the username is \<open>"Example"\<close> and the card is
  rendered with 3 stars and the rarity label \<open>MAGE\<close>.
\<close>

theorem resolved_handle_normalised:
  "(selectedRole s \<noteq> [] \<and> handle s = a @ 0x40 # r \<and> list_all isWhiteSpace a \<and> trim r \<noteq> [] \<longrightarrow>
      username (profile (fst (generateCard env s))) = trim r \<and>
      username (profile (fst (generateCard env s))) = spec_handle (handle s))
   \<and> (selectedRole s \<noteq> [] \<and> 0x40 \<notin> set (handle s) \<and> trim (handle s) \<noteq> [] \<longrightarrow>
      username (profile (fst (generateCard env s))) = trim (handle s) \<and>
      username (profile (fst (generateCard env s))) = spec_handle (handle s))
   \<and> (\<exists>pre post. t = pre @ trim t @ post \<and> list_all isWhiteSpace pre \<and> list_all isWhiteSpace post)
   \<and> (trim t \<noteq> [] \<longrightarrow> \<not> isWhiteSpace (hd (trim t)) \<and> \<not> isWhiteSpace (last (trim t)))
   \<and> (handle s = js ''@Example '' \<and> selectedRole s = js ''Mage'' \<longrightarrow>
      username (profile (fst (generateCard env s))) = js ''Example'' \<and>
      (\<exists>v. render_card (fst (generateCard env s)) = Some v \<and>
           cv_stars v = 3 \<and> cv_badge v = js ''MAGE'' \<and> cv_sideHandle v = js ''@Example''))"
proof (intro conjI impI)
  assume h: "selectedRole s \<noteq> [] \<and> handle s = a @ 0x40 # r \<and> list_all isWhiteSpace a \<and> trim r \<noteq> []"
  then have "trim (replace (js ''@'') [] (handle s)) = trim r"
    by (simp add: replace_at_first whitespace_no_at trim_leading)
  with h show u: "username (profile (fst (generateCard env s))) = trim r"
    by (simp add: generateCard_username)
  from h show "username (profile (fst (generateCard env s))) = spec_handle (handle s)"
    by (simp add: u spec_handle_leading_at)
next
  assume h: "selectedRole s \<noteq> [] \<and> 0x40 \<notin> set (handle s) \<and> trim (handle s) \<noteq> []"
  then have "trim (replace (js ''@'') [] (handle s)) = trim (handle s)"
    by (simp add: replace_at_none)
  with h show u: "username (profile (fst (generateCard env s))) = trim (handle s)"
    by (simp add: generateCard_username)
  from h show "username (profile (fst (generateCard env s))) = spec_handle (handle s)"
    by (simp add: u spec_handle_no_at)
next
  show "\<exists>pre post. t = pre @ trim t @ post \<and> list_all isWhiteSpace pre \<and> list_all isWhiteSpace post"
    by (rule trim_decomp)
next
  assume "trim t \<noteq> []"
  then show "\<not> isWhiteSpace (hd (trim t))" by (simp add: trim_ends)
next
  assume "trim t \<noteq> []"
  then show "\<not> isWhiteSpace (last (trim t))" by (simp add: trim_ends)
next
  assume h: "handle s = js ''@Example '' \<and> selectedRole s = js ''Mage''"
  then have n: "trim (replace (js ''@'') [] (handle s)) = js ''Example''"
    by (simp add: example_name)
  have ne: "js ''Example'' \<noteq> []" "selectedRole s \<noteq> []"
    using h by (simp_all add: js_def)
  show "username (profile (fst (generateCard env s))) = js ''Example''"
    by (rule generateCard_username [OF n ne])
  have "render_card (fst (generateCard env s)) =
          Some \<lparr>cv_badge = js ''MAGE'',
                cv_name = displayName (profile (fst (generateCard env s))),
                cv_sideHandle = js ''@'' @ js ''Example'', cv_stars = 3,
                cv_bio = or_js (bio (profile (fst (generateCard env s)))) (Str (js ''Stay Ritualized''))\<rparr>"
    using h ne
    by (simp add: generateCard_valid [OF n ne] render_card_def cfg_def roleConfig_Mage
        resolve_profile_username)
  then show "\<exists>v. render_card (fst (generateCard env s)) = Some v \<and>
           cv_stars v = 3 \<and> cv_badge v = js ''MAGE'' \<and> cv_sideHandle v = js ''@Example''"
    by (simp add: js_def)
qed

theorem resolved_handle_normalised_witness:
  "username (profile (fst (generateCard offline_env example_form))) = js ''Example'' \<and>
   username (profile (fst (generateCard offline_env example_form))) =
     spec_handle (handle example_form) \<and>
   (\<exists>v. render_card (fst (generateCard offline_env example_form)) = Some v \<and>
        cv_stars v = 3 \<and> cv_badge v = js ''MAGE'' \<and> cv_sideHandle v = js ''@Example'')"
proof -
  have f: "handle example_form = js ''@Example '' \<and> selectedRole example_form = js ''Mage''"
    by (simp add: example_form_def)
  have g: "selectedRole example_form \<noteq> []" "handle example_form = [] @ 0x40 # js ''Example ''"
    "list_all isWhiteSpace []" "trim (js ''Example '') \<noteq> []"
    by (simp_all add: example_form_def js_def trim_def isWhiteSpace_def)
  show ?thesis
    using resolved_handle_normalised [of example_form "[]" "js ''Example ''" offline_env "[]"] f g
    by blast
qed

section \<open>Properties of card generation\<close>

lemma resolve_profile_fallback:
  assumes "r = FetchRejects \<or> (\<exists>j. r = FetchResolves False j) \<or> r = FetchResolves True None \<or>
           (\<exists>data. r = FetchResolves True (Some data) \<and> \<not> truthy (opt_chain data (js ''user'')))"
  shows "resolve_profile env name r =
           \<lparr>username = name, displayName = Str name, avatarUrl = Str [],
            bio = Str (js ''Stay Ritualized''), followers = Null, following = Null,
            tweets = Null\<rparr>"
  using assms by (auto simp: resolve_profile_def)

lemma example_form_fields:
  "handle example_form = js ''@Example ''" "selectedRole example_form = js ''Mage''"
  "selectedRole example_form \<noteq> []"
  by (simp_all add: example_form_def js_def)








text \<open>
  Claim C6.  When the normalised handle is empty or no role is selected, \<open>generateCard\<close>
  fetches nothing and changes nothing but the error message, which it sets to the message of
  the first failed check: the handle, the selected role, the loading and exporting flags, the
  export status, the profile record and the card flag are as before.
\<close>

theorem validation_error_atomic:
  "(trim (replace (js ''@'') [] (handle s)) = [] \<longrightarrow>
      generateCard env s = (s\<lparr>error := js ''Please enter your X/Twitter username''\<rparr>, []))
   \<and> (trim (replace (js ''@'') [] (handle s)) \<noteq> [] \<and> selectedRole s = [] \<longrightarrow>
      generateCard env s = (s\<lparr>error := js ''Please select your role''\<rparr>, []))
   \<and> (trim (replace (js ''@'') [] (handle s)) = [] \<or> selectedRole s = [] \<longrightarrow>
      snd (generateCard env s) = [] \<and>
      error (fst (generateCard env s)) \<noteq> [] \<and>
      fst (generateCard env s) = s\<lparr>error := error (fst (generateCard env s))\<rparr> \<and>
      profile (fst (generateCard env s)) = profile s \<and>
      showCard (fst (generateCard env s)) = showCard s)"
  by (simp add: generateCard_def Let_def js_def)

theorem validation_error_atomic_witness:
  "generateCard offline_env initial_state =
     (initial_state\<lparr>error := js ''Please enter your X/Twitter username''\<rparr>, [])
   \<and> generateCard offline_env (initial_state\<lparr>handle := js ''Example''\<rparr>) =
     (initial_state\<lparr>handle := js ''Example'', error := js ''Please select your role''\<rparr>, [])"
proof -
  have a: "trim (replace (js ''@'') [] (handle initial_state)) = []"
    by (simp add: initial_state_def trim_def)
  have b: "trim (replace (js ''@'') [] (handle (initial_state\<lparr>handle := js ''Example''\<rparr>))) \<noteq> []"
    by (simp add: trim_def js_def isWhiteSpace_def)
  have c: "selectedRole (initial_state\<lparr>handle := js ''Example''\<rparr>) = []"
    by (simp add: initial_state_def)
  show ?thesis
    using validation_error_atomic [of initial_state offline_env]
      validation_error_atomic [of "initial_state\<lparr>handle := js ''Example''\<rparr>" offline_env] a b c
    by simp
qed

section \<open>Properties of the export\<close>

lemma renderCardBlob_calls:
  "snd (renderCardBlob tb bg) =
     (case tb 0 (high_options bg) of
        RasterReturns (Some b) \<Rightarrow> [high_options bg]
      | _ \<Rightarrow> [high_options bg, low_options bg])"
  by (simp add: renderCardBlob_def split: raster_result.split option.split)

lemma renderCardBlob_retry:
  assumes "tb 0 (high_options bg) = RasterThrows \<or> tb 0 (high_options bg) = RasterReturns None"
  shows "renderCardBlob tb bg =
           ((case tb 1 (low_options bg) of
               RasterThrows \<Rightarrow> Inl Thrown
             | RasterReturns None \<Rightarrow> Inl (Error (js ''Image export returned null''))
             | RasterReturns (Some b) \<Rightarrow> Inr b),
            [high_options bg, low_options bg])"
  using assms by (auto simp: renderCardBlob_def split: raster_result.split option.split)

lemma renderCardBlob_first:
  "tb 0 (high_options bg) = RasterReturns (Some b) \<Longrightarrow>
   renderCardBlob tb bg = (Inr b, [high_options bg])"
  by (simp add: renderCardBlob_def)

lemma renderCardBlob_at_most_two: "length (snd (renderCardBlob tb bg)) \<le> 2"
  by (simp add: renderCardBlob_calls split: raster_result.split option.split)

lemma stage_mounted_iff:
  "stage_mounted s \<longleftrightarrow> showCard s \<and> selectedRole s \<noteq> [] \<and> roleConfig (selectedRole s) \<noteq> None"
  by (auto simp: stage_mounted_def render_card_def cfg_def split: option.split)

lemmas world_ops =
  set_ui_def set_content_def close_tab_def export_failed_def export_finally_def
  fillTabWithImage_def anchorDownload_def v2_failed_def v2_deliver_def v4_failed_def

lemma start_ui_stage:
  "stage_mounted (ui w) \<Longrightarrow> \<not> exporting (ui w) \<Longrightarrow>
   stage_mounted (ui (download_start env w)) \<and> pending (download_start env w) \<noteq> [] \<and>
   rasterized (download_start env w) = rasterized w"
  by (simp add: download_start_def open_preTab_def set_ui_def Let_def stage_mounted_iff
      split: prod.split open_result.split)

lemma finish_rasterized:
  "stage_mounted (ui w) \<Longrightarrow>
   rasterized (download_finish env c w) =
     rasterized w @ snd (renderCardBlob (toBlob env) LIGHT_bg)"
  by (simp add: download_finish_def world_ops Let_def
      split: prod.split sum.split option.split)

lemma download_rasterized:
  assumes "stage_mounted (ui w)" "\<not> exporting (ui w)"
  shows "rasterized (download env w) = rasterized w @ snd (renderCardBlob (toBlob env) LIGHT_bg)"
  using assms start_ui_stage [OF assms, of env]
  by (simp add: download_def Let_def finish_rasterized)

lemma start_v4_ui_stage:
  "stage_mounted (ui w) \<Longrightarrow> \<not> exporting (ui w) \<Longrightarrow>
   stage_mounted (ui (download_v4_start env w)) \<and> pending (download_v4_start env w) \<noteq> [] \<and>
   rasterized (download_v4_start env w) = rasterized w"
  by (simp add: download_v4_start_def set_ui_def Let_def stage_mounted_iff)

lemma finish_v4_rasterized:
  "stage_mounted (ui w) \<Longrightarrow>
   rasterized (download_v4_finish env c w) =
     rasterized w @ snd (renderCardBlob (toBlob env) LIGHT_bg)"
  by (simp add: download_v4_finish_def world_ops Let_def
      split: prod.split sum.split option.split)

lemma download_v4_rasterized:
  assumes "stage_mounted (ui w)" "\<not> exporting (ui w)"
  shows "rasterized (download_v4 env w) = rasterized w @ snd (renderCardBlob (toBlob env) LIGHT_bg)"
  using assms start_v4_ui_stage [OF assms, of env]
  by (simp add: download_v4_def Let_def finish_v4_rasterized)

lemma start_v2_ui_stage:
  "stage_mounted (ui w) \<Longrightarrow> \<not> ua_ios env \<or> window_open env \<noteq> OpenThrows \<Longrightarrow>
   stage_mounted (ui (download_v2_start env w)) \<and>
   pending (download_v2_start env w) = pending w @ [last (pending (download_v2_start env w))] \<and>
   rasterized (download_v2_start env w) = rasterized w"
  by (auto simp: download_v2_start_def v2_started_def set_ui_def Let_def stage_mounted_iff
      split: open_result.split)

lemma finish_v2_rasterized:
  "stage_mounted (ui w) \<Longrightarrow>
   rasterized (download_v2_finish env c w) = rasterized w @ [v2_options]"
  by (simp add: download_v2_finish_def world_ops Let_def
      split: prod.split sum.split option.split raster_result.split)

lemma download_v2_rasterized:
  assumes "stage_mounted (ui w)" "\<not> ua_ios env \<or> window_open env \<noteq> OpenThrows"
  shows "rasterized (download_v2 env w) = rasterized w @ [v2_options]"
proof -
  note s = start_v2_ui_stage [OF assms]
  then have "length (pending (download_v2_start env w)) \<noteq> length (pending w)"
    by (metis length_append_singleton n_not_Suc_n)
  with s show ?thesis
    by (simp add: download_v2_def Let_def finish_v2_rasterized)
qed

lemma card_shown_ui:
  "ui card_shown = example_form\<lparr>error := [], loading := False,
       profile :=
         \<lparr>username = js ''Example'', displayName = Str (js ''Example''), avatarUrl = Str [],
          bio = Str (js ''Stay Ritualized''), followers = Null, following = Null,
          tweets = Null\<rparr>,
       showCard := True\<rparr>"
proof -
  have ne: "js ''Example'' \<noteq> []" by (simp add: js_def)
  have n: "trim (replace (js ''@'') [] (handle example_form)) = js ''Example''"
    by (simp add: example_form_fields example_name)
  have f: "fetchProfile offline_env u = FetchRejects" for u
    by (simp add: offline_env_def)
  show ?thesis
    by (simp add: card_shown_def generateCard_valid [OF n ne example_form_fields(3)] f
        resolve_profile_fallback)
qed

lemma card_shown_mounted: "stage_mounted (ui card_shown)"
  by (simp add: card_shown_ui stage_mounted_iff example_form_def roleConfig_Mage)
     (simp add: js_def)

lemma card_shown_fields:
  "exporting (ui card_shown) = False" "rasterized card_shown = []" "pending card_shown = []"
  "tabs card_shown = []" "alerts card_shown = []"
  by (simp_all add: card_shown_ui example_form_def initial_state_def)
     (simp_all add: card_shown_def world0_def)

lemma null_first_fields:
  "toBlob (null_first env) 0 opts = RasterReturns None"
  "toBlob (null_first env) (Suc n) opts = RasterReturns (Some png)"
  "ua_ios (null_first env) = ua_ios env" "can_share (null_first env) = can_share env"
  "window_open (null_first env) = window_open env"
  "tab_closed_meanwhile (null_first env) = tab_closed_meanwhile env"
  by (simp_all add: null_first_def)

lemma desktop_fields:
  "ua_ios desktop = False" "can_share desktop = False" "tab_closed_meanwhile desktop = False"
  "toBlob desktop n opts = RasterReturns (Some png)"
  by (simp_all add: desktop_def)

lemma v2_started_fields:
  "ui (v2_started env t w) = (ui w)\<lparr>exporting := True\<rparr>"
  "pending (v2_started env t w) =
     pending w @ [\<lparr>c_ios = ua_ios env, c_filename = export_filename (ui w), c_tab = t\<rparr>]"
  "alerts (v2_started env t w) = alerts w" "rasterized (v2_started env t w) = rasterized w"
  "tabs (v2_started env t w) = tabs w"
  by (simp_all add: v2_started_def set_ui_def Let_def)

text \<open>
  Claim C2 does not hold for every export of the repository: v2's \<open>download\<close> calls
  \<open>toBlob\<close> once.  On the rendered sample card, with a rasterizer that returns \<open>null\<close> on
  its first call and a blob on any later one, v2 makes the one attempt at pixel ratio 3 and
  reports failure, although a second attempt would have succeeded.
\<close>

theorem single_attempt_v2_counterexample:
  "stage_mounted (ui card_shown) \<and> \<not> exporting (ui card_shown) \<and>
   toBlob (null_first desktop) 0 v2_options = RasterReturns None \<and>
   pixelRatio v2_options = 3 \<and>
   toBlob (null_first desktop) 1 (low_options LIGHT_bg) = RasterReturns (Some png) \<and>
   rasterized (download_v2 (null_first desktop) card_shown) = [v2_options] \<and>
   alerts (download_v2 (null_first desktop) card_shown) = [js ''Export failed on iOS. Try again.'']"
proof -
  have r: "rasterized (download_v2 (null_first desktop) card_shown) = [v2_options]"
    using download_v2_rasterized [of card_shown "null_first desktop"]
    by (simp add: card_shown_mounted card_shown_fields null_first_fields desktop_fields)
  have st: "download_v2_start (null_first desktop) card_shown =
          v2_started (null_first desktop) None card_shown"
    by (simp add: download_v2_start_def card_shown_mounted null_first_fields desktop_fields)
  have m: "stage_mounted ((ui card_shown)\<lparr>exporting := True\<rparr>)"
    using card_shown_mounted by (simp add: stage_mounted_iff)
  have a: "alerts (download_v2 (null_first desktop) card_shown) =
          [js ''Export failed on iOS. Try again.'']"
    by (simp add: download_v2_def st v2_started_fields card_shown_fields Let_def
        download_v2_finish_def m null_first_fields v2_failed_def set_ui_def)
  show ?thesis
    using r a card_shown_mounted
    by (simp add: card_shown_fields null_first_def v2_options_def)
qed

text \<open>
  Claim C2, amended.  \<open>renderCardBlob\<close>, through which v3 and v4 export, retries exactly
  once: when the first \<open>toBlob\<close> call (pixel ratio 3) throws or returns \<open>null\<close>, it makes
  one second call at pixel ratio 2 and ends with that call's blob, or with its exception, or
  with the error \<open>Image export returned null\<close>; when the first call returns a blob it makes
  no second call.  It never makes more than two calls, and one \<open>download\<close> of v3 or v4 that
  passes the guard makes exactly the calls of one \<open>renderCardBlob\<close>.  One \<open>download\<close> of v2
  that gets past \<open>window.open\<close> makes one call, at pixel ratio 3, and never retries.
\<close>

theorem renderCardBlob_retries_once:
  "(tb 0 (high_options bg) = RasterThrows \<or> tb 0 (high_options bg) = RasterReturns None \<longrightarrow>
      renderCardBlob tb bg =
        ((case tb 1 (low_options bg) of
            RasterThrows \<Rightarrow> Inl Thrown
          | RasterReturns None \<Rightarrow> Inl (Error (js ''Image export returned null''))
          | RasterReturns (Some b) \<Rightarrow> Inr b),
         [high_options bg, low_options bg]))
   \<and> (tb 0 (high_options bg) = RasterReturns (Some b0) \<longrightarrow>
        renderCardBlob tb bg = (Inr b0, [high_options bg]))
   \<and> pixelRatio (high_options bg) = 3 \<and> pixelRatio (low_options bg) = 2
   \<and> length (snd (renderCardBlob tb bg)) \<le> 2
   \<and> (stage_mounted (ui w) \<and> \<not> exporting (ui w) \<longrightarrow>
        rasterized (download env w) = rasterized w @ snd (renderCardBlob (toBlob env) LIGHT_bg) \<and>
        rasterized (download_v4 env w) = rasterized w @ snd (renderCardBlob (toBlob env) LIGHT_bg))
   \<and> (stage_mounted (ui w) \<and> (\<not> ua_ios env \<or> window_open env \<noteq> OpenThrows) \<longrightarrow>
        rasterized (download_v2 env w) = rasterized w @ [v2_options] \<and> pixelRatio v2_options = 3)"
proof (intro conjI impI)
  assume "tb 0 (high_options bg) = RasterThrows \<or> tb 0 (high_options bg) = RasterReturns None"
  then show "renderCardBlob tb bg =
        ((case tb 1 (low_options bg) of
            RasterThrows \<Rightarrow> Inl Thrown
          | RasterReturns None \<Rightarrow> Inl (Error (js ''Image export returned null''))
          | RasterReturns (Some b) \<Rightarrow> Inr b),
         [high_options bg, low_options bg])"
    by (rule renderCardBlob_retry)
next
  assume "tb 0 (high_options bg) = RasterReturns (Some b0)"
  then show "renderCardBlob tb bg = (Inr b0, [high_options bg])"
    by (rule renderCardBlob_first)
next
  show "pixelRatio (high_options bg) = 3" by (simp add: high_options_def)
  show "pixelRatio (low_options bg) = 2" by (simp add: low_options_def)
  show "length (snd (renderCardBlob tb bg)) \<le> 2" by (rule renderCardBlob_at_most_two)
next
  assume "stage_mounted (ui w) \<and> \<not> exporting (ui w)"
  then show "rasterized (download env w) =
      rasterized w @ snd (renderCardBlob (toBlob env) LIGHT_bg)"
    by (simp add: download_rasterized)
next
  assume "stage_mounted (ui w) \<and> \<not> exporting (ui w)"
  then show "rasterized (download_v4 env w) =
      rasterized w @ snd (renderCardBlob (toBlob env) LIGHT_bg)"
    by (simp add: download_v4_rasterized)
next
  assume "stage_mounted (ui w) \<and> (\<not> ua_ios env \<or> window_open env \<noteq> OpenThrows)"
  then show "rasterized (download_v2 env w) = rasterized w @ [v2_options]"
    by (simp add: download_v2_rasterized)
next
  show "pixelRatio v2_options = 3" by (simp add: v2_options_def)
qed

theorem renderCardBlob_retries_once_witness:
  "renderCardBlob (toBlob (null_first desktop)) LIGHT_bg =
     (Inr png, [high_options LIGHT_bg, low_options LIGHT_bg])
   \<and> renderCardBlob (toBlob (failing desktop)) LIGHT_bg =
     (Inl Thrown, [high_options LIGHT_bg, low_options LIGHT_bg])
   \<and> renderCardBlob (toBlob desktop) LIGHT_bg = (Inr png, [high_options LIGHT_bg])
   \<and> rasterized (download (null_first desktop) card_shown) =
       [high_options LIGHT_bg, low_options LIGHT_bg]
   \<and> rasterized (download_v2 (null_first desktop) card_shown) = [v2_options]"
proof -
  have f: "toBlob (failing desktop) n opts = RasterThrows" for n opts
    by (simp add: failing_def)
  have one: "toBlob (null_first desktop) 1 opts = RasterReturns (Some png)" for opts
    by (simp add: null_first_def)
  show ?thesis
    using renderCardBlob_retries_once [of "toBlob (null_first desktop)" LIGHT_bg png card_shown
        "null_first desktop"]
      renderCardBlob_retries_once [of "toBlob (failing desktop)" LIGHT_bg png card_shown desktop]
      renderCardBlob_retries_once [of "toBlob desktop" LIGHT_bg png card_shown desktop]
      card_shown_mounted
    by (simp add: null_first_fields desktop_fields f one card_shown_fields)
qed

section \<open>Properties of the page as a sequence of events\<close>

lemma finish_flags:
  "pending (download_finish env c w) = pending w"
  "exporting (ui (download_finish env c w)) = False"
  "loading (ui (download_finish env c w)) = loading (ui w)"
  "iosSaveDataURL (ui (download_finish env c w)) = iosSaveDataURL (ui w)"
  by (simp_all add: download_finish_def world_ops Let_def
      split: prod.split sum.split option.split)

lemma finish_v4_flags:
  "pending (download_v4_finish env c w) = pending w"
  "exporting (ui (download_v4_finish env c w)) = False"
  "loading (ui (download_v4_finish env c w)) = loading (ui w)"
  by (simp_all add: download_v4_finish_def world_ops Let_def
      split: prod.split sum.split option.split)

lemma finish_v2_flags:
  "pending (download_v2_finish env c w) = pending w"
  "exporting (ui (download_v2_finish env c w)) = False"
  "loading (ui (download_v2_finish env c w)) = loading (ui w)"
  "iosSaveDataURL (ui (download_v2_finish env c w)) = iosSaveDataURL (ui w)"
  "exportStatus (ui (download_v2_finish env c w)) = exportStatus (ui w)"
  by (simp_all add: download_v2_finish_def world_ops Let_def
      split: prod.split sum.split option.split raster_result.split)

lemma run_task_flags:
  "pending (run_task t w) = pending w"
  "exporting (ui (run_task t w)) = exporting (ui w)"
  "loading (ui (run_task t w)) = loading (ui w)"
  "iosSaveDataURL (ui (run_task t w)) = iosSaveDataURL (ui w)"
  "exportStatus (ui w) = [] \<Longrightarrow> exportStatus (ui (run_task t w)) = []"
  by (cases t; simp add: set_ui_def)+

lemma fold_run_task_flags:
  "pending (fold run_task ts w) = pending w \<and>
   exporting (ui (fold run_task ts w)) = exporting (ui w) \<and>
   loading (ui (fold run_task ts w)) = loading (ui w) \<and>
   iosSaveDataURL (ui (fold run_task ts w)) = iosSaveDataURL (ui w) \<and>
   (exportStatus (ui w) = [] \<longrightarrow> exportStatus (ui (fold run_task ts w)) = [])"
  by (induction ts arbitrary: w) (simp_all add: run_task_flags)

lemma settle_flags:
  "pending (settle w) = pending w"
  "exporting (ui (settle w)) = exporting (ui w)"
  "loading (ui (settle w)) = loading (ui w)"
  "iosSaveDataURL (ui (settle w)) = iosSaveDataURL (ui w)"
  "exportStatus (ui w) = [] \<Longrightarrow> exportStatus (ui (settle w)) = []"
  by (simp_all add: settle_def run_timers_def run_frames_def fold_run_task_flags)

lemma generateCard_flags:
  "exporting (fst (generateCard penv s)) = exporting s"
  "iosSaveDataURL (fst (generateCard penv s)) = iosSaveDataURL s"
  "exportStatus (fst (generateCard penv s)) = exportStatus s"
  "loading s = False \<Longrightarrow> loading (fst (generateCard penv s)) = False"
  by (simp_all add: generateCard_def Let_def)

lemma start_one_export: "one_export w \<Longrightarrow> one_export (download_start env w)"
  by (auto simp: one_export_def download_start_def open_preTab_def set_ui_def Let_def
      split: prod.split open_result.split)

lemma start_v4_one_export: "one_export w \<Longrightarrow> one_export (download_v4_start env w)"
  by (auto simp: one_export_def download_v4_start_def set_ui_def Let_def)

lemma without_single: "length xs \<le> 1 \<Longrightarrow> i < length xs \<Longrightarrow> without i xs = []"
  by (cases xs) (auto simp: without_def)

lemma settle_one_export: "one_export w \<Longrightarrow> one_export (settle w)"
  by (simp add: one_export_def settle_flags)

lemma complete_one_export:
  assumes I: "one_export w" and i: "i < length (pending w)"
  shows "one_export (download_finish env (pending w ! i) (w\<lparr>pending := without i (pending w)\<rparr>))"
proof -
  from I i have "without i (pending w) = []" by (simp add: one_export_def without_single)
  with I show ?thesis by (simp add: one_export_def finish_flags)
qed

lemma complete_v4_one_export:
  assumes I: "one_export w" and i: "i < length (pending w)"
  shows "one_export (download_v4_finish env (pending w ! i) (w\<lparr>pending := without i (pending w)\<rparr>))"
proof -
  from I i have "without i (pending w) = []" by (simp add: one_export_def without_single)
  with I show ?thesis by (simp add: one_export_def finish_v4_flags)
qed

lemma step_with_one_export:
  assumes I: "one_export w"
    and start: "\<And>env w. one_export w \<Longrightarrow> one_export (start env w)"
    and finish: "\<And>env i w. one_export w \<Longrightarrow> i < length (pending w) \<Longrightarrow>
                   one_export (finish env (pending w ! i) (w\<lparr>pending := without i (pending w)\<rparr>))"
    and rst: "\<And>s. exporting (rst s) = exporting s \<and> loading (rst s) = loading s"
  shows "one_export (step_with start finish rst e w)"
proof (cases e)
  case (TypeHandle h)
  with I show ?thesis by (simp add: one_export_def set_ui_def)
next
  case (SelectRole r)
  with I show ?thesis by (simp add: one_export_def set_ui_def)
next
  case (Generate penv)
  with I show ?thesis by (simp add: one_export_def set_ui_def generateCard_flags)
next
  case (ClickDownload env)
  with I show ?thesis by (simp add: start)
next
  case (Complete i env)
  with I show ?thesis by (simp add: finish)
next
  case ClickReset
  with I show ?thesis by (simp add: one_export_def set_ui_def rst)
next
  case RunCallbacks
  with I show ?thesis by (simp add: settle_one_export)
qed

lemma step_one_export: "one_export w \<Longrightarrow> one_export (step e w)"
  unfolding step_def
  by (rule step_with_one_export) (simp_all add: start_one_export complete_one_export reset_def)

lemma step_v4_one_export: "one_export w \<Longrightarrow> one_export (step_v4 e w)"
  unfolding step_v4_def
  by (rule step_with_one_export)
     (simp_all add: start_v4_one_export complete_v4_one_export reset_v4_def)

lemma run_one_export: "one_export w \<Longrightarrow> one_export (fold step es w)"
  by (induction es arbitrary: w) (simp_all add: step_one_export)

lemma run_v4_one_export: "one_export w \<Longrightarrow> one_export (fold step_v4 es w)"
  by (induction es arbitrary: w) (simp_all add: step_v4_one_export)

lemma world0_one_export: "one_export world0"
  by (simp add: one_export_def world0_def initial_state_def)

lemma card_shown_one_export: "one_export card_shown"
  by (simp add: one_export_def card_shown_fields card_shown_ui example_form_def initial_state_def)

lemma guard_noop:
  "exporting (ui w) \<Longrightarrow>
   step (ClickDownload env) w = w \<and> step_v4 (ClickDownload env) w = w \<and>
   download env w = w \<and> download_v4 env w = w"
  by (simp add: step_def step_v4_def download_def download_v4_def download_start_def
      download_v4_start_def)

lemma v2_click_starts:
  "stage_mounted (ui w) \<Longrightarrow> \<not> ua_ios env \<or> window_open env \<noteq> OpenThrows \<Longrightarrow>
   length (pending (step_v2 (ClickDownload env) w)) = Suc (length (pending w))"
  by (auto simp: step_v2_def download_v2_start_def v2_started_fields split: open_result.split)

lemma finish_v2_stage:
  "stage_mounted (ui (download_v2_finish env c w)) = stage_mounted (ui w)"
  by (simp add: download_v2_finish_def world_ops Let_def stage_mounted_iff
      split: prod.split sum.split option.split raster_result.split)

lemma v2_started_stage:
  "stage_mounted (ui (v2_started env t w)) = stage_mounted (ui w)"
  by (simp add: v2_started_fields stage_mounted_iff)

lemma v2_click_desktop:
  "stage_mounted (ui w) \<Longrightarrow> step_v2 (ClickDownload desktop) w = v2_started desktop None w"
  by (simp add: step_v2_def download_v2_start_def desktop_fields)

lemma v2_complete_first:
  "pending w \<noteq> [] \<Longrightarrow>
   step_v2 (Complete 0 env) w = download_v2_finish env (hd (pending w)) (w\<lparr>pending := tl (pending w)\<rparr>)"
  by (cases "pending w") (simp_all add: step_v2_def without_def)

text \<open>
  Claim C7 does not hold for v2: its \<open>download\<close> tests the stage only, and its button
  is never disabled.  On the rendered sample card a first click starts an export and sets
  \<open>exporting\<close>; a second click before the first export completes starts a second one, so
  two are in flight, and each of them rasterizes.
\<close>

theorem second_click_v2_counterexample:
  "stage_mounted (ui card_shown) \<and> pending card_shown = [] \<and>
   exporting (ui (step_v2 (ClickDownload desktop) card_shown)) \<and>
   length (pending (step_v2 (ClickDownload desktop) card_shown)) = 1 \<and>
   length (pending (step_v2 (ClickDownload desktop) (step_v2 (ClickDownload desktop) card_shown))) = 2 \<and>
   rasterized (fold step_v2 [ClickDownload desktop, ClickDownload desktop,
                             Complete 0 desktop, Complete 0 desktop] card_shown) =
     [v2_options, v2_options]"
proof -
  define w1 where "w1 = step_v2 (ClickDownload desktop) card_shown"
  define w2 where "w2 = step_v2 (ClickDownload desktop) w1"
  define w3 where "w3 = step_v2 (Complete 0 desktop) w2"
  define w4 where "w4 = step_v2 (Complete 0 desktop) w3"
  have e1: "w1 = v2_started desktop None card_shown"
    by (simp add: w1_def v2_click_desktop card_shown_mounted)
  have m1: "stage_mounted (ui w1)"
    by (simp add: e1 v2_started_stage card_shown_mounted)
  have x1: "exporting (ui w1)" and p1: "length (pending w1) = 1" and r1: "rasterized w1 = []"
    by (simp_all add: e1 v2_started_fields card_shown_fields)
  have e2: "w2 = v2_started desktop None w1"
    by (simp add: w2_def v2_click_desktop m1)
  have m2: "stage_mounted (ui w2)"
    by (simp add: e2 v2_started_stage m1)
  have p2: "length (pending w2) = 2" and r2: "rasterized w2 = []"
    by (simp_all add: e2 v2_started_fields p1 r1)
  from p2 have ne2: "pending w2 \<noteq> []" by auto
  have e3: "w3 = download_v2_finish desktop (hd (pending w2)) (w2\<lparr>pending := tl (pending w2)\<rparr>)"
    by (simp add: w3_def v2_complete_first ne2)
  have m3: "stage_mounted (ui w3)"
    by (simp add: e3 finish_v2_stage m2)
  have r3: "rasterized w3 = [v2_options]"
    using m2 by (simp add: e3 finish_v2_rasterized r2)
  have p3: "length (pending w3) = 1"
    by (simp add: e3 finish_v2_flags p2)
  from p3 have ne3: "pending w3 \<noteq> []" by auto
  have e4: "w4 = download_v2_finish desktop (hd (pending w3)) (w3\<lparr>pending := tl (pending w3)\<rparr>)"
    by (simp add: w4_def v2_complete_first ne3)
  have r4: "rasterized w4 = [v2_options, v2_options]"
    using m3 by (simp add: e4 finish_v2_rasterized r3)
  have "fold step_v2 [ClickDownload desktop, ClickDownload desktop,
                      Complete 0 desktop, Complete 0 desktop] card_shown = w4"
    by (simp add: w4_def w3_def w2_def w1_def)
  with r4 p2 p1 x1 show ?thesis
    by (simp add: card_shown_mounted card_shown_fields w2_def w1_def)
qed

lemma start_exporting:
  "stage_mounted (ui w) \<Longrightarrow> \<not> exporting (ui w) \<Longrightarrow> exporting (ui (download_start env w))"
  by (simp add: download_start_def open_preTab_def set_ui_def Let_def
      split: prod.split open_result.split)

text \<open>
  Claim C7, amended.  In v3 and v4, from a page on which at most one export is in flight
  and the \<open>exporting\<close> flag says so (such as the initial page), every sequence of events
  leads to such a page again: at most one export is ever in flight.  While \<open>exporting\<close> is
  set, a click on the download button, and \<open>download\<close> as a whole, change nothing.  In v2
  every click on the download button of a rendered card that gets past \<open>window.open\<close>
  starts an export, whether or not one is in flight.
\<close>

theorem one_export_in_flight:
  "(one_export w \<longrightarrow>
      one_export (fold step es w) \<and> one_export (fold step_v4 es w) \<and>
      length (pending (fold step es w)) \<le> 1 \<and> length (pending (fold step_v4 es w)) \<le> 1)
   \<and> one_export world0
   \<and> (exporting (ui w) \<longrightarrow>
        step (ClickDownload env) w = w \<and> step_v4 (ClickDownload env) w = w \<and>
        download env w = w \<and> download_v4 env w = w)
   \<and> (stage_mounted (ui w) \<and> (\<not> ua_ios env \<or> window_open env \<noteq> OpenThrows) \<longrightarrow>
        length (pending (step_v2 (ClickDownload env) w)) = Suc (length (pending w)))"
proof (intro conjI impI)
  assume I: "one_export w"
  show a: "one_export (fold step es w)" using I by (rule run_one_export)
  show b: "one_export (fold step_v4 es w)" using I by (rule run_v4_one_export)
  from a show "length (pending (fold step es w)) \<le> 1" by (simp add: one_export_def)
  from b show "length (pending (fold step_v4 es w)) \<le> 1" by (simp add: one_export_def)
next
  show "one_export world0" by (rule world0_one_export)
next
  assume "exporting (ui w)"
  then show "step (ClickDownload env) w = w" "step_v4 (ClickDownload env) w = w"
    "download env w = w" "download_v4 env w = w"
    by (simp_all add: guard_noop)
next
  assume "stage_mounted (ui w) \<and> (\<not> ua_ios env \<or> window_open env \<noteq> OpenThrows)"
  then show "length (pending (step_v2 (ClickDownload env) w)) = Suc (length (pending w))"
    by (simp add: v2_click_starts)
qed

theorem one_export_in_flight_witness:
  "one_export (fold step [ClickDownload desktop, ClickDownload desktop] card_shown) \<and>
   exporting (ui (step (ClickDownload desktop) card_shown)) \<and>
   step (ClickDownload desktop) (step (ClickDownload desktop) card_shown) =
     step (ClickDownload desktop) card_shown"
proof -
  have x: "exporting (ui (step (ClickDownload desktop) card_shown))"
    by (simp add: step_def card_shown_mounted start_exporting card_shown_fields)
  show ?thesis
    using one_export_in_flight [of card_shown "[ClickDownload desktop, ClickDownload desktop]"]
      one_export_in_flight [of "step (ClickDownload desktop) card_shown" "[]" desktop]
      card_shown_one_export x
    by simp
qed

section \<open>Properties of reset\<close>

lemma reset_fields:
  "handle (reset s) = []" "selectedRole (reset s) = []" "profile (reset s) = default_profile"
  "error (reset s) = []" "exportStatus (reset s) = []" "showCard (reset s) = False"
  "loading (reset s) = loading s" "exporting (reset s) = exporting s"
  by (simp_all add: reset_def)

lemma reset_eq_initial:
  "\<not> loading s \<Longrightarrow> \<not> exporting s \<Longrightarrow> iosSaveDataURL s = None \<Longrightarrow> reset s = initial_state"
  by (cases s) (simp add: reset_def initial_state_def)

lemma reset_v2_eq_initial:
  "\<not> loading s \<Longrightarrow> \<not> exporting s \<Longrightarrow> iosSaveDataURL s = None \<Longrightarrow> exportStatus s = [] \<Longrightarrow>
   reset_v2 s = initial_state"
  by (cases s) (simp add: reset_v2_def initial_state_def)

lemma reset_v4_eq_initial:
  "\<not> loading s \<Longrightarrow> \<not> exporting s \<Longrightarrow> reset_v4 s = initial_state"
  by (cases s) (simp add: reset_v4_def initial_state_def)

lemma start_ios_none:
  "iosSaveDataURL (ui (download_start env w)) = iosSaveDataURL (ui w)"
  by (simp add: download_start_def open_preTab_def set_ui_def Let_def
      split: prod.split open_result.split)

lemma step_ios_none:
  assumes "iosSaveDataURL (ui w) = None"
  shows "iosSaveDataURL (ui (step e w)) = None"
  using assms
  by (cases e)
     (simp_all add: step_def set_ui_def generateCard_flags start_ios_none finish_flags
        reset_def settle_flags)

lemma run_ios_none: "iosSaveDataURL (ui w) = None \<Longrightarrow> iosSaveDataURL (ui (fold step es w)) = None"
  by (induction es arbitrary: w) (simp_all add: step_ios_none)

lemma world0_fields:
  "iosSaveDataURL (ui world0) = None" "pending world0 = []" "ui world0 = initial_state"
  by (simp_all add: world0_def initial_state_def)

lemma reachable_reset:
  assumes "pending (fold step es world0) = []"
  shows "reset (ui (fold step es world0)) = initial_state"
proof -
  have "one_export (fold step es world0)"
    by (rule run_one_export [OF world0_one_export])
  with assms have "\<not> loading (ui (fold step es world0))" "\<not> exporting (ui (fold step es world0))"
    by (simp_all add: one_export_def)
  moreover have "iosSaveDataURL (ui (fold step es world0)) = None"
    by (rule run_ios_none) (simp add: world0_fields(1))
  ultimately show ?thesis by (rule reset_eq_initial)
qed

lemma reachable_v4_reset:
  assumes "pending (fold step_v4 es world0) = []"
  shows "reset_v4 (ui (fold step_v4 es world0)) = initial_state"
proof -
  have "one_export (fold step_v4 es world0)"
    by (rule run_v4_one_export [OF world0_one_export])
  with assms show ?thesis
    by (simp add: one_export_def reset_v4_eq_initial)
qed

lemma start_flags:
  "loading (ui (download_start env w)) = loading (ui w)"
  "loading (ui (download_v4_start env w)) = loading (ui w)"
  by (simp_all add: download_start_def download_v4_start_def open_preTab_def set_ui_def Let_def
      split: prod.split open_result.split)

lemma download_flags:
  assumes "\<not> exporting (ui w)"
  shows "exporting (ui (download env w)) = False"
    "loading (ui (download env w)) = loading (ui w)"
    "iosSaveDataURL (ui (download env w)) = iosSaveDataURL (ui w)"
    "exporting (ui (download_v4 env w)) = False"
    "loading (ui (download_v4 env w)) = loading (ui w)"
  using assms
  by (simp_all add: download_def download_v4_def Let_def finish_flags finish_v4_flags
      start_flags start_ios_none)

lemma v2_start_idle: "v2_idle w \<Longrightarrow> v2_idle (download_v2_start env w)"
  by (auto simp: v2_idle_def download_v2_start_def v2_started_def set_ui_def Let_def
      split: open_result.split)

lemma step_v2_idle:
  assumes I: "v2_idle w"
  shows "v2_idle (step_v2 e w)"
proof (cases e)
  case (ClickDownload env)
  with I show ?thesis by (simp add: step_v2_def v2_start_idle)
next
  case (Complete i env)
  with I show ?thesis by (simp add: step_v2_def v2_idle_def finish_v2_flags)
next
  case RunCallbacks
  with I show ?thesis by (simp add: step_v2_def v2_idle_def settle_flags)
qed (use I in \<open>simp_all add: step_v2_def v2_idle_def set_ui_def generateCard_flags reset_v2_def\<close>)

lemma run_v2_idle: "v2_idle w \<Longrightarrow> v2_idle (fold step_v2 es w)"
  by (induction es arbitrary: w) (simp_all add: step_v2_idle)

lemma world0_v2_idle: "v2_idle world0"
  by (simp add: v2_idle_def world0_def initial_state_def)

lemma reachable_v2_reset:
  assumes "pending (fold step_v2 es world0) = []"
  shows "reset_v2 (ui (fold step_v2 es world0)) = initial_state"
  using run_v2_idle [OF world0_v2_idle, of es] assms
  by (simp add: v2_idle_def reset_v2_eq_initial)

lemma after_export_reset:
  assumes "pending (fold step es world0) = []"
  shows "reset (ui (download env (fold step es world0))) = initial_state"
proof -
  let ?w = "fold step es world0"
  have "one_export ?w" by (rule run_one_export [OF world0_one_export])
  with assms have x: "\<not> exporting (ui ?w)" and l: "\<not> loading (ui ?w)"
    by (simp_all add: one_export_def)
  have i: "iosSaveDataURL (ui ?w) = None"
    by (rule run_ios_none) (simp add: world0_fields(1))
  show ?thesis
    by (rule reset_eq_initial) (simp_all add: download_flags [OF x] l i)
qed

lemma after_export_v4_reset:
  assumes "pending (fold step_v4 es world0) = []"
  shows "reset_v4 (ui (download_v4 env (fold step_v4 es world0))) = initial_state"
proof -
  let ?w = "fold step_v4 es world0"
  have "one_export ?w" by (rule run_v4_one_export [OF world0_one_export])
  with assms have x: "\<not> exporting (ui ?w)" and l: "\<not> loading (ui ?w)"
    by (simp_all add: one_export_def)
  show ?thesis
    by (rule reset_v4_eq_initial) (simp_all add: download_flags [OF x] l)
qed

text \<open>
  Claim C9.  In every state \<open>reset\<close> empties the handle, the selected role, the error and
  the export status, hides the card and puts back the default profile (display name
  \<open>USERNAME\<close>, bio \<open>Stay Ritualized\<close>, \<open>null\<close> counts); doing it twice is doing it once.
  After any sequence of events from the initial page that leaves no export in flight, and so
  after any export that has completed, the state after \<open>reset\<close> is the initial state, in
  each of the three revisions; the same holds when \<open>reset\<close> follows an export directly.
\<close>

theorem reset_restores_initial_state:
  "handle (reset s) = [] \<and> selectedRole (reset s) = [] \<and> profile (reset s) = default_profile \<and>
   error (reset s) = [] \<and> exportStatus (reset s) = [] \<and> showCard (reset s) = False \<and>
   render_card (reset s) = None \<and>
   default_profile =
     \<lparr>username = [], displayName = Str (js ''USERNAME''), avatarUrl = Str [],
      bio = Str (js ''Stay Ritualized''), followers = Null, following = Null, tweets = Null\<rparr> \<and>
   reset (reset s) = reset s \<and>
   (pending (fold step es world0) = [] \<longrightarrow>
      reset (ui (fold step es world0)) = initial_state \<and>
      reset (ui (download env (fold step es world0))) = initial_state) \<and>
   (pending (fold step_v4 es world0) = [] \<longrightarrow>
      reset_v4 (ui (fold step_v4 es world0)) = initial_state \<and>
      reset_v4 (ui (download_v4 env (fold step_v4 es world0))) = initial_state) \<and>
   (pending (fold step_v2 es world0) = [] \<longrightarrow>
      reset_v2 (ui (fold step_v2 es world0)) = initial_state)"
proof (intro conjI impI)
  show "render_card (reset s) = None" by (simp add: render_card_def reset_def)
  show "default_profile =
     \<lparr>username = [], displayName = Str (js ''USERNAME''), avatarUrl = Str [],
      bio = Str (js ''Stay Ritualized''), followers = Null, following = Null, tweets = Null\<rparr>"
    by (simp add: default_profile_def)
  show "reset (reset s) = reset s" by (simp add: reset_def)
next
  assume "pending (fold step es world0) = []"
  then show "reset (ui (fold step es world0)) = initial_state"
    "reset (ui (download env (fold step es world0))) = initial_state"
    by (simp_all add: reachable_reset after_export_reset)
next
  assume "pending (fold step_v4 es world0) = []"
  then show "reset_v4 (ui (fold step_v4 es world0)) = initial_state"
    "reset_v4 (ui (download_v4 env (fold step_v4 es world0))) = initial_state"
    by (simp_all add: reachable_v4_reset after_export_v4_reset)
next
  assume "pending (fold step_v2 es world0) = []"
  then show "reset_v2 (ui (fold step_v2 es world0)) = initial_state"
    by (rule reachable_v2_reset)
qed (simp_all add: reset_fields)

lemma sample_history:
  "fold step [TypeHandle (js ''@Example ''), SelectRole (js ''Mage''), Generate offline_env] world0 =
   card_shown"
  by (simp add: step_def set_ui_def world0_def initial_state_def card_shown_def
      example_form_def roleConfig_Mage)

lemma sample_export_done:
  "pending (fold step [TypeHandle (js ''@Example ''), SelectRole (js ''Mage''),
                       Generate offline_env, ClickDownload desktop, Complete 0 desktop] world0) = []"
proof -
  let ?w1 = "step (ClickDownload desktop) card_shown"
  have I: "one_export ?w1" by (rule step_one_export [OF card_shown_one_export])
  have "pending ?w1 \<noteq> []"
    using start_ui_stage [OF card_shown_mounted, of desktop]
    by (simp add: step_def card_shown_mounted card_shown_fields)
  with I have "0 < length (pending ?w1)" "without 0 (pending ?w1) = []"
    by (simp_all add: one_export_def without_single)
  then have "pending (step (Complete 0 desktop) ?w1) = []"
    by (simp add: step_def finish_flags)
  moreover have "fold step [TypeHandle (js ''@Example ''), SelectRole (js ''Mage''),
                       Generate offline_env, ClickDownload desktop, Complete 0 desktop] world0 =
                 step (Complete 0 desktop) ?w1"
    by (simp only: sample_history [symmetric] fold_simps comp_def)
  ultimately show ?thesis by (simp only:)
qed

theorem reset_restores_initial_state_witness:
  "reset (ui (fold step [TypeHandle (js ''@Example ''), SelectRole (js ''Mage''),
                         Generate offline_env, ClickDownload desktop, Complete 0 desktop] world0)) =
     initial_state
   \<and> reset (ui (download desktop card_shown)) = initial_state"
proof -
  have p: "pending (fold step [TypeHandle (js ''@Example ''), SelectRole (js ''Mage''),
                               Generate offline_env] world0) = []"
    by (simp only: sample_history card_shown_fields)
  show ?thesis
    using reset_restores_initial_state [of _ "[TypeHandle (js ''@Example ''), SelectRole (js ''Mage''),
        Generate offline_env, ClickDownload desktop, Complete 0 desktop]"]
      reset_restores_initial_state [of _ "[TypeHandle (js ''@Example ''), SelectRole (js ''Mage''),
        Generate offline_env]" desktop]
      sample_export_done p sample_history
    by metis
qed

section \<open>Properties of the resources of an export\<close>








lemma urls_scheduled_frame:
  assumes "urls_scheduled w" "live_urls w' = live_urls w"
    "set (frames w) \<subseteq> set (frames w')" "set (timers w) \<subseteq> set (timers w')"
  shows "urls_scheduled w'"
  using assms by (auto simp: urls_scheduled_def list_all_iff)








































section \<open>Properties of fmtNum\<close>

lemma round_half_even_close: "\<bar>of_int (round_half_even r) - r\<bar> \<le> 1/2"
proof -
  have "of_int \<lfloor>r\<rfloor> \<le> r" "r < of_int \<lfloor>r\<rfloor> + 1" by linarith+
  then show ?thesis
    by (auto simp: round_half_even_def Let_def abs_le_iff)
qed

lemma ilog2_bounds: "1 \<le> n \<Longrightarrow> 2 ^ ilog2 n \<le> n \<and> n < 2 ^ Suc (ilog2 n)"
proof (induction n rule: ilog2.induct)
  case (1 n)
  show ?case
  proof (cases "n < 2")
    case True
    with "1.prems" show ?thesis by (simp add: ilog2.simps [of n])
  next
    case False
    then have "1 \<le> n div 2" by simp
    with "1.IH" False have "2 ^ ilog2 (n div 2) \<le> n div 2 \<and> n div 2 < 2 ^ Suc (ilog2 (n div 2))"
      by simp
    with False show ?thesis
      by (simp add: ilog2.simps [of n]) linarith
  qed
qed

lemma fl_error:
  assumes "1 \<le> q" "q < 2 ^ 53"
  shows "\<bar>fl q - q\<bar> \<le> q / 2 ^ 53"
proof -
  define e where "e = ilog2 (nat \<lfloor>q\<rfloor>)"
  have fq: "1 \<le> nat \<lfloor>q\<rfloor>" using assms(1) by linarith
  note b = ilog2_bounds [OF fq, folded e_def]
  have "int (2 ^ e) \<le> int (nat \<lfloor>q\<rfloor>)" using b by (simp only: of_nat_le_iff)
  moreover have "0 \<le> \<lfloor>q\<rfloor>" using assms(1) by simp
  then have "int (nat \<lfloor>q\<rfloor>) = \<lfloor>q\<rfloor>" by simp
  ultimately have ie: "(2::int) ^ e \<le> \<lfloor>q\<rfloor>" by simp
  have "(of_int ((2::int) ^ e) :: rat) \<le> of_int \<lfloor>q\<rfloor>" using ie by (simp only: of_int_le_iff)
  also have "\<dots> \<le> q" by simp
  finally have lo: "(2::rat) ^ e \<le> q" by simp
  have "\<lfloor>q\<rfloor> < 2 ^ 53" using assms(2) by (simp add: floor_less_iff)
  with ie have "(2::int) ^ e < 2 ^ 53" by linarith
  then have "e < 53" by (rule power_less_imp_less_exp [rotated]) simp
  then have e52: "e \<le> 52" by simp
  define k where "k = 52 - e"
  have ke: "Suc (k + e) = 53" using e52 by (simp add: k_def)
  have f: "fl q = of_int (round_half_even (q * 2 ^ k)) / 2 ^ k"
    using e52 by (simp add: fl_def e_def [symmetric] k_def Let_def)
  have "fl q - q = (of_int (round_half_even (q * 2 ^ k)) - q * 2 ^ k) / 2 ^ k"
    by (simp add: f diff_divide_distrib)
  then have "\<bar>fl q - q\<bar> = \<bar>of_int (round_half_even (q * 2 ^ k)) - q * 2 ^ k\<bar> / 2 ^ k"
    by simp
  also have "\<dots> \<le> (1/2) / 2 ^ k"
    by (intro divide_right_mono round_half_even_close) simp
  also have "\<dots> = 2 ^ e / 2 ^ 53"
  proof -
    have "(2::rat) ^ 53 = 2 ^ Suc (k + e)" by (simp only: ke)
    also have "\<dots> = 2 * 2 ^ k * 2 ^ e" by (simp add: power_add)
    finally show ?thesis by (simp add: field_simps)
  qed
  also have "\<dots> \<le> q / 2 ^ 53"
    using lo by (intro divide_right_mono) simp_all
  finally show ?thesis .
qed


lemma fl_below:
  assumes "1 \<le> q" "q < 2 ^ 53"
  shows "fl q < 10 ^ 21"
proof -
  have "\<bar>fl q - q\<bar> \<le> q / 2 ^ 53" by (rule fl_error [OF assms])
  moreover have "q / 2 ^ 53 < 1" using assms by simp
  ultimately have "fl q < q + 1" by linarith
  also have "\<dots> < 2 ^ 53 + 1" using assms(2) by simp
  also have "\<dots> < (10 ^ 21 :: rat)" by simp
  finally show ?thesis .
qed

lemma quotient_range:
  fixes n d :: int
  assumes "0 < d" "d \<le> n" "n < 2 ^ 53"
  shows "1 \<le> (of_int n / of_int d :: rat)" "(of_int n / of_int d :: rat) < 2 ^ 53"
proof -
  have d: "(0::rat) < of_int d" "(1::rat) \<le> of_int d" using assms(1) by simp_all
  have "(of_int d :: rat) \<le> of_int n" using assms(2) by (simp only: of_int_le_iff)
  then show "1 \<le> (of_int n / of_int d :: rat)" using d by (simp add: field_simps)
  have n: "(of_int n :: rat) < 2 ^ 53" using assms(3)
    by (metis of_int_less_iff of_int_numeral of_int_power)
  have "(0::rat) \<le> of_int n" using assms by simp
  then have "(of_int n / of_int d :: rat) \<le> of_int n / 1"
    using d by (intro divide_left_mono) simp_all
  with n show "(of_int n / of_int d :: rat) < 2 ^ 53" by simp
qed

lemma tenths_close:
  fixes n c :: int
  assumes c: "0 < c" and n: "20 * c \<le> n" "n < 2 ^ 53"
  shows "\<bar>of_nat (tenths (fl (of_int n / of_int (20 * c)))) / 10 - of_int n / of_int (20 * c)\<bar>
           \<le> (1/20 :: rat)"
proof -
  define N where "N = (of_int n :: rat)"
  define C where "C = (of_int c :: rat)"
  define q where "q = N / (20 * C)"
  define x where "x = fl q"
  have C: "0 < C" using c by (simp add: C_def)
  have NC: "20 * C \<le> N" using n(1) unfolding N_def C_def
    by (metis of_int_le_iff of_int_mult of_int_numeral)
  have N53: "N < 2 ^ 53" using n(2) unfolding N_def
    by (metis of_int_less_iff of_int_numeral of_int_power)
  have C1: "1 \<le> C" using c unfolding C_def by (simp add: int_one_le_iff_zero_less)
  have q1: "1 \<le> q" using NC C by (simp add: q_def field_simps)
  have qN: "q \<le> N"
  proof -
    have "0 \<le> N" "1 \<le> 20 * C" using C1 NC by linarith+
    then have "N \<le> N * (20 * C)" by (simp add: mult_le_cancel_left1)
    then show ?thesis using C by (simp add: q_def field_simps)
  qed
  with N53 have q53: "q < 2 ^ 53" by simp
  have err: "\<bar>x - q\<bar> \<le> q / 2 ^ 53" unfolding x_def by (rule fl_error [OF q1 q53])
  have "q / 2 ^ 53 < 1 / (20 * C)"
  proof -
    have "q / 2 ^ 53 = (N / 2 ^ 53) / (20 * C)" by (simp add: q_def)
    also have "\<dots> < 1 / (20 * C)"
      using N53 C by (intro divide_strict_right_mono) simp_all
    finally show ?thesis .
  qed
  with err have "\<bar>x - q\<bar> < 1 / (20 * C)" by simp
  then have "\<bar>x - q\<bar> * (20 * C) < 1" using C by (simp add: field_simps)
  moreover have "\<bar>x - q\<bar> * (20 * C) = \<bar>20 * C * x - N\<bar>"
  proof -
    have "(x - q) * (20 * C) = 20 * C * x - N" using C by (simp add: q_def field_simps)
    moreover have "\<bar>x - q\<bar> * (20 * C) = \<bar>(x - q) * (20 * C)\<bar>" using C by (simp add: abs_mult)
    ultimately show ?thesis by simp
  qed
  ultimately have e: "20 * C * x < N + 1" "N - 1 < 20 * C * x" by linarith+
  have xpos: "0 < x"
  proof -
    have "0 < 20 * C * x" using e(2) NC C1 by linarith
    then show ?thesis using C by (simp add: zero_less_mult_iff)
  qed
  define m where "m = \<lfloor>10 * x + 1/2\<rfloor>"
  have m0: "0 \<le> m" using xpos by (simp add: m_def)
  have t: "(of_nat (tenths x) :: rat) = of_int m"
    using m0 by (simp add: tenths_def m_def)
  define M where "M = (of_int m :: rat)"
  have A: "M \<le> 10 * x + 1/2" "10 * x + 1/2 < M + 1"
    unfolding M_def m_def by linarith+
  have "2 * C * M \<le> 2 * C * (10 * x + 1/2)" using A(1) C by (intro mult_left_mono) auto
  then have B1: "2 * C * M - C \<le> 20 * C * x" by (simp add: algebra_simps)
  have "2 * C * (10 * x + 1/2) < 2 * C * (M + 1)" using A(2) C by (intro mult_strict_left_mono) auto
  then have B2: "20 * C * x < 2 * C * M + C" by (simp add: algebra_simps)
  from B1 e(1) have "2 * C * M - C < N + 1" by linarith
  then have "(of_int (2 * c * m - c) :: rat) < of_int (n + 1)"
    by (simp add: C_def M_def N_def)
  then have "2 * c * m - c < n + 1" by (simp only: of_int_less_iff)
  then have i1: "2 * c * m - c \<le> n" by linarith
  from B2 e(2) have "N - 1 < 2 * C * M + C" by linarith
  then have "(of_int (n - 1) :: rat) < of_int (2 * c * m + c)"
    by (simp add: C_def M_def N_def)
  then have "n - 1 < 2 * c * m + c" by (simp only: of_int_less_iff)
  then have i2: "n \<le> 2 * c * m + c" by linarith
  have "(of_int (2 * c * m - c) :: rat) \<le> of_int n" "(of_int n :: rat) \<le> of_int (2 * c * m + c)"
    using i1 i2 by (simp_all only: of_int_le_iff)
  then have b: "2 * C * M - C \<le> N" "N \<le> 2 * C * M + C"
    by (simp_all add: C_def M_def N_def)
  have "M / 10 - q = (2 * C * M - N) / (20 * C)"
    using C by (simp add: q_def field_simps)
  moreover have "\<bar>(2 * C * M - N) / (20 * C)\<bar> \<le> 1/20"
  proof -
    have "\<bar>20 * C\<bar> = 20 * C" using C by simp
    then have "\<bar>(2 * C * M - N) / (20 * C)\<bar> = \<bar>2 * C * M - N\<bar> / (20 * C)"
      by (simp only: abs_divide)
    also have "\<dots> \<le> C / (20 * C)"
    proof -
      have "\<bar>2 * C * M - N\<bar> \<le> C" using b by linarith
      then show ?thesis using C by (intro divide_right_mono) simp_all
    qed
    also have "\<dots> = 1/20" using C by simp
    finally show ?thesis .
  qed
  ultimately have "\<bar>M / 10 - q\<bar> \<le> 1/20" by simp
  then show ?thesis
    by (simp add: t [unfolded x_def q_def N_def C_def, simplified] M_def q_def N_def C_def)
qed

lemma unat_digit: "d < 10 \<Longrightarrow> unat (digit d) = 48 + d"
  unfolding digit_def by (simp only: unat_of_nat) simp

lemma digit_value_digit: "d < 10 \<Longrightarrow> digit_value (digit d) = d"
  by (simp add: digit_value_def unat_digit)

lemma is_digit_digit: "d < 10 \<Longrightarrow> is_digit (digit d)"
  by (simp add: is_digit_def word_le_nat_alt unat_digit)

lemma read_decimal_snoc: "read_decimal (s @ [c]) = 10 * read_decimal s + digit_value c"
  by (simp add: read_decimal_def)

lemma read_decimal_decimal: "read_decimal (decimal n) = n"
proof (induction n rule: decimal.induct)
  case (1 n)
  show ?case
  proof (cases "n < 10")
    case True
    then show ?thesis
      by (simp add: decimal.simps [of n] read_decimal_def digit_value_digit)
  next
    case False
    with "1.IH" show ?thesis
      by (simp add: decimal.simps [of n] read_decimal_snoc digit_value_digit)
  qed
qed

lemma decimal_digits: "list_all is_digit (decimal n)"
proof (induction n rule: decimal.induct)
  case (1 n)
  show ?case
  proof (cases "n < 10")
    case True
    then show ?thesis by (simp add: decimal.simps [of n] is_digit_digit)
  next
    case False
    with "1.IH" show ?thesis by (simp add: decimal.simps [of n] is_digit_digit)
  qed
qed

lemma decimal_nonempty: "decimal n \<noteq> []"
  by (simp add: decimal.simps [of n])

lemma digit_zero_iff: "d < 10 \<Longrightarrow> digit d = 0x30 \<longleftrightarrow> d = 0"
proof
  assume d: "d < 10" and "digit d = 0x30"
  then have "digit_value (digit d) = digit_value 0x30" by simp
  with d show "d = 0" by (simp add: digit_value_digit) (simp add: digit_value_def)
next
  assume "d = 0"
  then show "digit d = 0x30" by (simp add: digit_def)
qed

lemma decimal_no_leading_zero: "0 < n \<Longrightarrow> hd (decimal n) \<noteq> 0x30"
proof (induction n rule: decimal.induct)
  case (1 n)
  show ?case
  proof (cases "n < 10")
    case True
    with "1.prems" show ?thesis by (simp add: decimal.simps [of n] digit_zero_iff)
  next
    case False
    then have "0 < n div 10" by simp
    with "1.IH" False have "hd (decimal (n div 10)) \<noteq> 0x30" by simp
    with False show ?thesis
      by (simp add: decimal.simps [of n] decimal_nonempty)
  qed
qed

lemma fmtNum_millions:
  assumes "1000000 \<le> n" "n < 2 ^ 53"
  shows "\<exists>m. fmtNum (CInt n) = decimal (m div 10) @ js ''.'' @ [digit (m mod 10)] @ js ''M'' \<and>
             \<bar>of_nat m / 10 - of_int n / 1000000\<bar> \<le> (1/20 :: rat)"
proof -
  have "\<bar>of_nat (tenths (fl (of_int n / of_int (20 * 50000)))) / 10 - of_int n / of_int (20 * 50000)\<bar>
          \<le> (1/20 :: rat)"
    using assms by (intro tenths_close) simp_all
  then have "\<bar>of_nat (tenths (fl (of_int n / 1000000))) / 10 - of_int n / 1000000\<bar> \<le> (1/20 :: rat)"
    by simp
  moreover have "fl (of_int n / 1000000) < 10 ^ 21"
    using quotient_range [of 1000000 n] assms by (intro fl_below) simp_all
  then have "fmtNum (CInt n) =
      decimal (tenths (fl (of_int n / 1000000)) div 10) @ js ''.'' @
        [digit (tenths (fl (of_int n / 1000000)) mod 10)] @ js ''M''"
    using assms(1) by (simp add: fmtNum_def toFixed1_def)
  ultimately show ?thesis by blast
qed

lemma fmtNum_thousands:
  assumes "1000 \<le> n" "n < 1000000"
  shows "\<exists>m. fmtNum (CInt n) = decimal (m div 10) @ js ''.'' @ [digit (m mod 10)] @ js ''K'' \<and>
             \<bar>of_nat m / 10 - of_int n / 1000\<bar> \<le> (1/20 :: rat)"
proof -
  have n53: "n < 2 ^ 53" using assms(2) by simp
  then have "\<bar>of_nat (tenths (fl (of_int n / of_int (20 * 50)))) / 10 - of_int n / of_int (20 * 50)\<bar>
          \<le> (1/20 :: rat)"
    using assms by (intro tenths_close) simp_all
  then have "\<bar>of_nat (tenths (fl (of_int n / 1000))) / 10 - of_int n / 1000\<bar> \<le> (1/20 :: rat)"
    by simp
  moreover have "fl (of_int n / 1000) < 10 ^ 21"
    using quotient_range [of 1000 n] assms n53 by (intro fl_below) simp_all
  then have "fmtNum (CInt n) =
      decimal (tenths (fl (of_int n / 1000)) div 10) @ js ''.'' @
        [digit (tenths (fl (of_int n / 1000)) mod 10)] @ js ''K''"
    using assms by (simp add: fmtNum_def toFixed1_def)
  ultimately show ?thesis by blast
qed

lemma floor_numeral_fraction:
  "\<lfloor>numeral a / numeral b :: rat\<rfloor> = numeral a div numeral b"
  using floor_divide_of_int_eq [of "numeral a" "numeral b", where ?'a = rat] by simp

lemmas fmtNum_eval =
  fmtNum_def fl_def toFixed1_def tenths_def round_half_even_def
  ilog2.simps decimal.simps digit_def js_def Let_def floor_numeral_fraction

lemmas toString_eval =
  Number_toString_def shortest_digits_def digit_candidates_def closer_def String_of_int_def

lemma String_of_int_safe:
  "0 \<le> n \<Longrightarrow> n < 2 ^ 53 \<Longrightarrow> String_of_int n = decimal (nat n)"
  "- (2 ^ 53) < n \<Longrightarrow> n < 0 \<Longrightarrow> String_of_int n = js ''-'' @ decimal (nat (- n))"
proof -
  assume "0 \<le> n" "n < 2 ^ 53"
  then have "nat n < 2 ^ 53" by (simp add: nat_less_iff)
  with \<open>0 \<le> n\<close> show "String_of_int n = decimal (nat n)"
    by (simp add: String_of_int_def Number_toString_def)
next
  assume "- (2 ^ 53) < n" "n < 0"
  then have "nat (- n) < 2 ^ 53" by (simp add: nat_less_iff)
  with \<open>n < 0\<close> show "String_of_int n = js ''-'' @ decimal (nat (- n))"
    by (simp add: String_of_int_def Number_toString_def)
qed

text \<open>
  Outside the safe integers \<open>String\<close> prints the shortest digits that read back as the
  same Number, in exponent notation from \<open>10^21\<close>, and so does \<open>toFixed\<close> from there.
\<close>

lemma String_of_int_2_64:
  "representable (- 18446744073709551616) \<and>
   String_of_int (- 18446744073709551616) = js ''-18446744073709552000''"
  by (simp add: representable_def fmtNum_eval toString_eval)

lemma String_of_int_1e23:
  "representable (- near_1e23) \<and> String_of_int (- near_1e23) = js ''-1e+23''"
  by (simp add: representable_def near_1e23_def fmtNum_eval toString_eval)

lemma near_1e27_representable: "representable near_1e27"
  by (simp add: representable_def near_1e27_def fmtNum_eval)

lemma fmtNum_near_1e27: "fmtNum (CInt near_1e27) = js ''1e+21M''"
  by (simp add: near_1e27_def fmtNum_eval toString_eval)

text \<open>
  Claim C10 does not hold for every integer from 1,000,000.  The Number nearest to \<open>10^27\<close>
  is an integer; divided by 1,000,000 it gives the Number \<open>10^21\<close>, at which \<open>toFixed\<close>
  changes to exponent notation: the result is \<open>1e+21M\<close>, which has no decimal point and
  so is not a value rounded to one decimal place.
\<close>

theorem fmtNum_exponent_counterexample:
  "representable near_1e27 \<and> 1000000 \<le> near_1e27 \<and>
   fmtNum (CInt near_1e27) = js ''1e+21M'' \<and>
   0x2E \<notin> set (fmtNum (CInt near_1e27))"
  by (simp add: near_1e27_representable fmtNum_near_1e27) (simp add: near_1e27_def js_def)

lemma fmtNum_999999: "fmtNum (CInt 999999) = js ''1000.0K''"
  by (simp add: fmtNum_eval)

text \<open>
  Claim C10, on the safe integers.  \<open>fmtNum\<close> returns a string for every argument of the
  model, and throws for none.  For \<open>null\<close> and \<open>undefined\<close> it is the dash.  For an
  integer \<open>n\<close> from 1,000,000 and below \<open>2^53\<close> it is a decimal numeral with one digit
  after the point, followed by \<open>M\<close>, and the numeral's value is within one twentieth of
  \<open>n / 1,000,000\<close>: the quotient rounded to one decimal place.  For \<open>n\<close> from 1,000 and
  below 1,000,000 it is the same with \<open>n / 1,000\<close> and \<open>K\<close>; 999,999 gives
  \<open>1000.0K\<close>.  For \<open>n\<close> from 0 and below 1,000 it is the decimal string of \<open>n\<close>, and for
  a negative \<open>n\<close> above \<open>- 2^53\<close> it is the minus sign followed by the decimal string of
  \<open>- n\<close>.  \<open>decimal\<close> is the plain numeral: digits only, no leading zero, and reading it
  back gives the number.
\<close>

theorem fmtNum_total_cases:
  "fmtNum CNull = [0x2014] \<and> fmtNum CUndefined = [0x2014]
   \<and> (1000000 \<le> n \<and> n < 2 ^ 53 \<longrightarrow>
        (\<exists>m. fmtNum (CInt n) = decimal (m div 10) @ js ''.'' @ [digit (m mod 10)] @ js ''M'' \<and>
             \<bar>of_nat m / 10 - of_int n / 1000000\<bar> \<le> (1/20 :: rat)))
   \<and> (1000 \<le> n \<and> n < 1000000 \<longrightarrow>
        (\<exists>m. fmtNum (CInt n) = decimal (m div 10) @ js ''.'' @ [digit (m mod 10)] @ js ''K'' \<and>
             \<bar>of_nat m / 10 - of_int n / 1000\<bar> \<le> (1/20 :: rat)))
   \<and> fmtNum (CInt 999999) = js ''1000.0K''
   \<and> (0 \<le> n \<and> n < 1000 \<longrightarrow> fmtNum (CInt n) = decimal (nat n))
   \<and> (- (2 ^ 53) < n \<and> n < 0 \<longrightarrow> fmtNum (CInt n) = js ''-'' @ decimal (nat (- n)))
   \<and> read_decimal (decimal k) = k \<and> list_all is_digit (decimal k)
   \<and> (0 < k \<longrightarrow> hd (decimal k) \<noteq> 0x30)"
proof (intro conjI impI)
  show "fmtNum CNull = [0x2014]" "fmtNum CUndefined = [0x2014]"
    by (simp_all add: fmtNum_def)
next
  assume "1000000 \<le> n \<and> n < 2 ^ 53"
  then show "\<exists>m. fmtNum (CInt n) = decimal (m div 10) @ js ''.'' @ [digit (m mod 10)] @ js ''M'' \<and>
             \<bar>of_nat m / 10 - of_int n / 1000000\<bar> \<le> (1/20 :: rat)"
    by (intro fmtNum_millions) simp_all
next
  assume "1000 \<le> n \<and> n < 1000000"
  then show "\<exists>m. fmtNum (CInt n) = decimal (m div 10) @ js ''.'' @ [digit (m mod 10)] @ js ''K'' \<and>
             \<bar>of_nat m / 10 - of_int n / 1000\<bar> \<le> (1/20 :: rat)"
    by (intro fmtNum_thousands) simp_all
next
  show "fmtNum (CInt 999999) = js ''1000.0K''" by (rule fmtNum_999999)
next
  assume a: "0 \<le> n \<and> n < 1000"
  then have "n < 2 ^ 53" by simp
  with a show "fmtNum (CInt n) = decimal (nat n)"
    by (simp add: fmtNum_def String_of_int_safe(1))
next
  assume "- (2 ^ 53) < n \<and> n < 0"
  then show "fmtNum (CInt n) = js ''-'' @ decimal (nat (- n))"
    by (simp add: fmtNum_def String_of_int_safe(2))
next
  show "read_decimal (decimal k) = k" by (rule read_decimal_decimal)
  show "list_all is_digit (decimal k)" by (rule decimal_digits)
next
  assume "0 < k"
  then show "hd (decimal k) \<noteq> 0x30" by (rule decimal_no_leading_zero)
qed

theorem fmtNum_total_cases_witness:
  "fmtNum (CInt 999) = js ''999'' \<and> fmtNum (CInt (- 42)) = js ''-42''
   \<and> (\<exists>m. fmtNum (CInt 1500000) = decimal (m div 10) @ js ''.'' @ [digit (m mod 10)] @ js ''M'' \<and>
          \<bar>of_nat m / 10 - 1500000 / 1000000\<bar> \<le> (1/20 :: rat))
   \<and> fmtNum (CInt 1500000) = js ''1.5M''
   \<and> (\<exists>m. fmtNum (CInt 1234) = decimal (m div 10) @ js ''.'' @ [digit (m mod 10)] @ js ''K'' \<and>
          \<bar>of_nat m / 10 - 1234 / 1000\<bar> \<le> (1/20 :: rat))
   \<and> fmtNum (CInt 1234) = js ''1.2K''"
proof -
  have a: "decimal 999 = js ''999''" "js ''-'' @ decimal 42 = js ''-42''"
    by (simp_all add: decimal.simps digit_def js_def)
  have b: "fmtNum (CInt 1500000) = js ''1.5M''" "fmtNum (CInt 1234) = js ''1.2K''"
    by (simp_all add: fmtNum_eval)
  show ?thesis
    using fmtNum_total_cases [of 999] fmtNum_total_cases [of "- 42"]
      fmtNum_total_cases [of 1500000] fmtNum_total_cases [of 1234] a b
    by simp
qed

end
